theory Spec2Isabelle
  imports Main
begin

section \<open>JavaScript dates\<close>

text \<open>
  An instant is a time value: milliseconds since the epoch, UTC. A calendar date (a
  \<^verbatim>\<open>DATE\<close> column, the date a \<^verbatim>\<open>YYYY-MM-DD\<close> string names) is the number of whole
  days since the epoch. Each service call reads the clock once: the adjacent
  \<^verbatim>\<open>new Date()\<close> expressions of one call see the same instant \<open>now\<close>.
\<close>

type_synonym instant = int
type_synonym date = int

definition msPerDay :: int where
  "msPerDay = 86400000"

text \<open>The UTC calendar date of an instant.\<close>

definition utcDate :: "instant \<Rightarrow> date" where
  "utcDate t = t div msPerDay"

text \<open>
  A \<^verbatim>\<open>Date\<close> object holds a time value of at most 8.64e15 in absolute value, or
  \<^verbatim>\<open>NaN\<close> (an invalid date), which is \<open>None\<close> here. \<open>TimeClip\<close> is the
  operation of the language specification that makes the out-of-range values invalid.
\<close>

type_synonym js_date = "instant option"

definition maxTime :: int where
  "maxTime = 8640000000000000"

definition TimeClip :: "int \<Rightarrow> js_date" where
  "TimeClip t = (if abs t \<le> maxTime then Some t else None)"

text \<open>
  The time zone of the server process: the offset from UTC, in milliseconds, in force at a
  UTC instant (\<open>tza_utc\<close>) and the offset a local time value is read with
  (\<open>tza_local\<close>). \<open>LocalTime\<close> and \<open>UTC\<close> are the conversions of the language
  specification.
\<close>

record zone =
  tza_utc :: "instant \<Rightarrow> int"
  tza_local :: "int \<Rightarrow> int"

definition LocalTime :: "zone \<Rightarrow> instant \<Rightarrow> int" where
  "LocalTime z t = t + tza_utc z t"

definition UTC :: "zone \<Rightarrow> int \<Rightarrow> instant" where
  "UTC z lt = lt - tza_local z lt"

text \<open>
  The two spellings of a start date that the route's \<^verbatim>\<open>isDate()\<close> check lets through,
  \<^verbatim>\<open>YYYY-MM-DD\<close> and \<^verbatim>\<open>YYYY/MM/DD\<close>, each with the day number of the calendar date
  it names. MySQL reads either spelling as that date.
\<close>

datatype date_string = Dashed date | Slashed date

definition date_of :: "date_string \<Rightarrow> date" where
  "date_of s = (case s of Dashed d \<Rightarrow> d | Slashed d \<Rightarrow> d)"

text \<open>
  \<^verbatim>\<open>new Date(startDate)\<close>: the dashed (ISO) spelling is midnight UTC of the day, the
  slashed one midnight local time.
\<close>

definition new_Date :: "zone \<Rightarrow> date_string \<Rightarrow> js_date" where
  "new_Date z s =
     (case s of
        Dashed d \<Rightarrow> TimeClip (d * msPerDay)
      | Slashed d \<Rightarrow> TimeClip (UTC z (d * msPerDay)))"

text \<open>
  \<^verbatim>\<open>d.setDate(d.getDate() + n)\<close>: the day of the month is read and set in local time, so
  the local wall-clock time moves \<open>n\<close> calendar days on and is converted back to UTC with
  the offset in force there.
\<close>

definition setDate_plus :: "zone \<Rightarrow> js_date \<Rightarrow> int \<Rightarrow> js_date" where
  "setDate_plus z d n =
     (case d of
        None \<Rightarrow> None
      | Some t \<Rightarrow> TimeClip (UTC z (LocalTime z t + n * msPerDay)))"

text \<open>
  \<^verbatim>\<open>d.toISOString().split('T')[0]\<close>: the UTC calendar date;
  \<^verbatim>\<open>toISOString\<close> throws a \<^verbatim>\<open>RangeError\<close> on an invalid date.
\<close>

datatype js_error = RangeError

definition toISODate :: "js_date \<Rightarrow> js_error + date" where
  "toISODate d = (case d of None \<Rightarrow> Inl RangeError | Some t \<Rightarrow> Inr (utcDate t))"

section \<open>The relational store\<close>

text \<open>
  One record per table row, one list per table, in insertion order. A \<^verbatim>\<open>SELECT\<close>
  without \<^verbatim>\<open>ORDER BY\<close> returns rows in table order; \<^verbatim>\<open>rows[0]\<close> is the head
  of that list, and \<^verbatim>\<open>rows[0]\<close> of an empty result is \<^verbatim>\<open>undefined\<close>, modelled as
  \<open>None\<close>.
\<close>

datatype reminder_type = watering | fertilizing | harvesting | other

record all_plants_row =
  ap_plant_id :: nat
  ap_plant_cultivar :: string
  ap_plant_species :: string
  ap_is_deleted :: bool

text \<open>
  \<^verbatim>\<open>est_cropping\<close> holds the value the statement binds to it, the form field as a
  string or \<^verbatim>\<open>NULL\<close>; the column's declaration and MySQL's conversion of the string
  are not in the repository.
\<close>

record user_plants_row =
  up_user_plant_id :: nat
  up_user_id :: nat
  up_plant_id :: nat
  up_planting_time :: date
  up_est_cropping :: "string option"
  up_photo_url :: "string option"
  up_is_deleted :: bool

record plant_reminders_row =
  r_reminder_id :: nat
  r_user_plant_id :: nat
  r_reminder_type :: reminder_type
  r_start_date :: date
  r_interval_days :: int
  r_next_reminder :: date
  r_last_completed :: "date option"
  r_notes :: "string option"
  r_is_active :: bool

record plant_health_row =
  h_health_id :: nat
  h_user_plant_id :: nat
  h_remarks :: string
  h_created_at :: int

text \<open>
  The four tables, and the \<^verbatim>\<open>AUTO_INCREMENT\<close> counter of each (the
  \<^verbatim>\<open>insertId\<close> the next \<^verbatim>\<open>INSERT\<close> reports).
\<close>

record database =
  all_plants :: "all_plants_row list"
  user_plants :: "user_plants_row list"
  plant_reminders :: "plant_reminders_row list"
  plant_health :: "plant_health_row list"
  next_plant_id :: nat
  next_user_plant_id :: nat
  next_reminder_id :: nat
  next_health_id :: nat

text \<open>\<^verbatim>\<open>rows.length > 0 ? rows[0] : null\<close>, and \<^verbatim>\<open>rows[0]\<close> alone.\<close>

definition first_row :: "'a list \<Rightarrow> 'a option" where
  "first_row rows = (case rows of [] \<Rightarrow> None | x # _ \<Rightarrow> Some x)"

text \<open>
  Modelled from the spec: the \<^verbatim>\<open>CREATE TABLE\<close> of \<^verbatim>\<open>all_plants\<close> and
  \<^verbatim>\<open>user_plants\<close> is not in the repository, so neither are the collation of the text
  columns and the default of \<^verbatim>\<open>is_deleted\<close>. Following the spec, \<^verbatim>\<open>=\<close> on
  \<^verbatim>\<open>plant_cultivar\<close> and \<^verbatim>\<open>plant_species\<close> is exact string equality, and a row
  inserted without \<^verbatim>\<open>is_deleted\<close> is not deleted.
\<close>

definition sql_text_eq :: "string \<Rightarrow> string \<Rightarrow> bool" where
  "sql_text_eq a b = (a = b)"

definition is_deleted_default :: bool where
  "is_deleted_default = False"

text \<open>JavaScript's \<^verbatim>\<open>x || null\<close> on a string or null: the empty string is falsy.\<close>

definition str_or_null :: "string option \<Rightarrow> string option" where
  "str_or_null x = (case x of None \<Rightarrow> None | Some s \<Rightarrow> if s = [] then None else Some s)"

section \<open>Plant service\<close>

text \<open>The row shape the plant queries select.\<close>

record plant =
  p_id :: nat
  p_name :: string
  p_species :: string
  p_plantingTime :: date
  p_estCropping :: "string option"
  p_photoUrl :: "string option"

definition plant_of :: "user_plants_row \<Rightarrow> all_plants_row \<Rightarrow> plant" where
  "plant_of up ap =
     \<lparr>p_id = up_user_plant_id up, p_name = ap_plant_cultivar ap, p_species = ap_plant_species ap,
      p_plantingTime = up_planting_time up, p_estCropping = up_est_cropping up,
      p_photoUrl = up_photo_url up\<rparr>"

text \<open>
  \<^verbatim>\<open>SELECT ... FROM user_plants up JOIN all_plants ap ON up.plant_id = ap.plant_id
  WHERE up.user_id = ? AND up.is_deleted = 0 ORDER BY up.planting_time DESC\<close>
\<close>

definition getUserPlants :: "database \<Rightarrow> nat \<Rightarrow> plant list" where
  "getUserPlants db userId =
     sort_key (\<lambda>p. - p_plantingTime p)
       [plant_of up ap. up \<leftarrow> user_plants db, ap \<leftarrow> all_plants db,
          up_plant_id up = ap_plant_id ap, up_user_id up = userId \<and> \<not> up_is_deleted up]"

definition getPlantById :: "database \<Rightarrow> nat \<Rightarrow> nat \<Rightarrow> plant option" where
  "getPlantById db plantId userId =
     first_row
       [plant_of up ap. up \<leftarrow> user_plants db, ap \<leftarrow> all_plants db,
          up_plant_id up = ap_plant_id ap,
          up_user_plant_id up = plantId \<and> up_user_id up = userId \<and> \<not> up_is_deleted up]"

text \<open>
  The awaited steps of \<^verbatim>\<open>addPlant\<close> and \<^verbatim>\<open>updatePlant\<close>. Each of them can
  reject (connection loss, deadlock, constraint failure); \<open>fault s\<close> says that step \<open>s\<close>
  does. The rejection is the exception the \<^verbatim>\<open>catch\<close> block sees.
\<close>

datatype step =
  GetConnection | BeginTransaction | VerifyOwner | SelectPlantType | InsertPlantType
  | InsertUserPlant | UpdateUserPlant | Commit | FetchPlant

datatype db_error = DbError

definition no_fault :: "step \<Rightarrow> bool" where
  "no_fault s = False"

definition findOrCreatePlantType ::
  "(step \<Rightarrow> bool) \<Rightarrow> database \<Rightarrow> string \<Rightarrow> string \<Rightarrow> db_error + (database \<times> nat)" where
  "findOrCreatePlantType fault db cultivar species =
     (if fault SelectPlantType then Inl DbError
      else
        case filter (\<lambda>ap. sql_text_eq (ap_plant_cultivar ap) cultivar
                          \<and> sql_text_eq (ap_plant_species ap) species
                          \<and> \<not> ap_is_deleted ap) (all_plants db) of
          existing # _ \<Rightarrow> Inr (db, ap_plant_id existing)
        | [] \<Rightarrow>
            if fault InsertPlantType then Inl DbError
            else
              Inr (db\<lparr>all_plants := all_plants db @
                         [\<lparr>ap_plant_id = next_plant_id db, ap_plant_cultivar = cultivar,
                           ap_plant_species = species, ap_is_deleted = is_deleted_default\<rparr>],
                       next_plant_id := Suc (next_plant_id db)\<rparr>,
                   next_plant_id db))"

text \<open>
  \<^verbatim>\<open>connection.rollback()\<close>: the tables are those of the start of the transaction
  (\<open>db0\<close>); the \<^verbatim>\<open>AUTO_INCREMENT\<close> counters keep the values the transaction left
  (\<open>dbw\<close>).
\<close>

definition rollback :: "database \<Rightarrow> database \<Rightarrow> database" where
  "rollback db0 dbw =
     db0\<lparr>next_plant_id := next_plant_id dbw, next_user_plant_id := next_user_plant_id dbw\<rparr>"

text \<open>
  The \<^verbatim>\<open>plantData\<close> the routes build from the form: \<^verbatim>\<open>estCropping\<close> is the
  field \<^verbatim>\<open>est_cropping\<close>, a string, or null; \<^verbatim>\<open>photoUrl\<close> is the uploaded
  file's URL, or null.
\<close>

record plantData =
  cultivar :: string
  species :: string
  plantingTime :: date
  estCropping :: "string option"
  photoUrl :: "string option"

text \<open>\<^verbatim>\<open>SELECT ... FROM user_plants up JOIN all_plants ap ... WHERE up.user_plant_id = ?\<close>\<close>

definition fetchPlant :: "database \<Rightarrow> nat \<Rightarrow> plant option" where
  "fetchPlant db plantId =
     first_row
       [plant_of up ap. up \<leftarrow> user_plants db, ap \<leftarrow> all_plants db,
          up_plant_id up = ap_plant_id ap, up_user_plant_id up = plantId]"

definition addPlant ::
  "(step \<Rightarrow> bool) \<Rightarrow> database \<Rightarrow> plantData \<Rightarrow> nat \<Rightarrow> database \<times> (db_error + plant option)" where
  "addPlant fault db pd userId =
     (if fault GetConnection then (db, Inl DbError)
      else if fault BeginTransaction then (rollback db db, Inl DbError)
      else
        case findOrCreatePlantType fault db (cultivar pd) (species pd) of
          Inl e \<Rightarrow> (rollback db db, Inl e)
        | Inr (db1, plantTypeId) \<Rightarrow>
            if fault InsertUserPlant then (rollback db db1, Inl DbError)
            else
              let insertId = next_user_plant_id db1;
                  db2 = db1\<lparr>user_plants := user_plants db1 @
                          [\<lparr>up_user_plant_id = insertId, up_user_id = userId,
                            up_plant_id = plantTypeId, up_planting_time = plantingTime pd,
                            up_est_cropping = str_or_null (estCropping pd),
                            up_photo_url = photoUrl pd, up_is_deleted = is_deleted_default\<rparr>],
                        next_user_plant_id := Suc insertId\<rparr>
              in if fault Commit then (rollback db db2, Inl DbError)
                 else if fault FetchPlant then (db2, Inl DbError)
                 else (db2, Inr (fetchPlant db2 insertId)))"

text \<open>
  \<^verbatim>\<open>updateData\<close> holds \<^verbatim>\<open>photo_url\<close> only when \<^verbatim>\<open>photoUrl\<close> is truthy; the
  \<^verbatim>\<open>UPDATE\<close> sets exactly the keys of \<^verbatim>\<open>updateData\<close>.
\<close>

definition updateRow :: "nat \<Rightarrow> plantData \<Rightarrow> user_plants_row \<Rightarrow> user_plants_row" where
  "updateRow plantTypeId pd up =
     (let up1 = up\<lparr>up_plant_id := plantTypeId, up_planting_time := plantingTime pd,
                   up_est_cropping := str_or_null (estCropping pd)\<rparr>
      in case str_or_null (photoUrl pd) of
           None \<Rightarrow> up1
         | Some url \<Rightarrow> up1\<lparr>up_photo_url := Some url\<rparr>)"

definition updatePlant ::
  "(step \<Rightarrow> bool) \<Rightarrow> database \<Rightarrow> nat \<Rightarrow> plantData \<Rightarrow> nat
     \<Rightarrow> database \<times> (db_error + plant option)" where
  "updatePlant fault db plantId pd userId =
     (if fault GetConnection then (db, Inl DbError)
      else if fault BeginTransaction then (rollback db db, Inl DbError)
      else if fault VerifyOwner then (rollback db db, Inl DbError)
      else if filter (\<lambda>up. up_user_plant_id up = plantId \<and> up_user_id up = userId
                            \<and> \<not> up_is_deleted up) (user_plants db) = []
      then (rollback db db, Inr None)
      else
        case findOrCreatePlantType fault db (cultivar pd) (species pd) of
          Inl e \<Rightarrow> (rollback db db, Inl e)
        | Inr (db1, plantTypeId) \<Rightarrow>
            if fault UpdateUserPlant then (rollback db db1, Inl DbError)
            else
              let db2 = db1\<lparr>user_plants :=
                          map (\<lambda>up. if up_user_plant_id up = plantId \<and> up_user_id up = userId
                                     then updateRow plantTypeId pd up else up)
                              (user_plants db1)\<rparr>
              in if fault Commit then (rollback db db2, Inl DbError)
                 else if fault FetchPlant then (db2, Inl DbError)
                 else (db2, Inr (fetchPlant db2 plantId)))"

text \<open>
  \<^verbatim>\<open>UPDATE user_plants SET is_deleted = 1 WHERE user_plant_id = ? AND user_id = ?\<close>;
  \<^verbatim>\<open>affectedRows\<close> counts the rows the \<^verbatim>\<open>WHERE\<close> clause matches.
\<close>

definition deletePlant :: "database \<Rightarrow> nat \<Rightarrow> nat \<Rightarrow> database \<times> bool" where
  "deletePlant db plantId userId =
     (let affectedRows =
            length (filter (\<lambda>up. up_user_plant_id up = plantId \<and> up_user_id up = userId)
                      (user_plants db))
      in (db\<lparr>user_plants :=
               map (\<lambda>up. if up_user_plant_id up = plantId \<and> up_user_id up = userId
                          then up\<lparr>up_is_deleted := True\<rparr> else up)
                   (user_plants db)\<rparr>,
          affectedRows > 0))"

section \<open>Reminder service\<close>

text \<open>The public (camel-cased) shape of a reminder row.\<close>

record reminder =
  rem_id :: nat
  rem_type :: reminder_type
  startDate :: date
  intervalDays :: int
  nextReminder :: date
  lastCompleted :: "date option"
  rem_notes :: "string option"
  isActive :: bool

definition format_reminder :: "plant_reminders_row \<Rightarrow> reminder" where
  "format_reminder r =
     \<lparr>rem_id = r_reminder_id r, rem_type = r_reminder_type r, startDate = r_start_date r,
      intervalDays = r_interval_days r, nextReminder = r_next_reminder r,
      lastCompleted = r_last_completed r, rem_notes = r_notes r, isActive = r_is_active r\<rparr>"

text \<open>
  \<^verbatim>\<open>SELECT * FROM user_plants WHERE user_plant_id = ? AND user_id = ? AND is_deleted = 0\<close>:
  the ownership check every plant-scoped operation of the reminder and health services starts
  with.
\<close>

definition owned_plant :: "database \<Rightarrow> nat \<Rightarrow> nat \<Rightarrow> user_plants_row list" where
  "owned_plant db plantId userId =
     filter (\<lambda>up. up_user_plant_id up = plantId \<and> up_user_id up = userId \<and> \<not> up_is_deleted up)
       (user_plants db)"

text \<open>\<^verbatim>\<open>SELECT * FROM plant_reminders WHERE reminder_id = ?\<close>\<close>

definition reminder_by_id :: "database \<Rightarrow> nat \<Rightarrow> plant_reminders_row list" where
  "reminder_by_id db reminderId =
     filter (\<lambda>r. r_reminder_id r = reminderId) (plant_reminders db)"

definition getPlantReminders :: "database \<Rightarrow> nat \<Rightarrow> nat \<Rightarrow> reminder list option" where
  "getPlantReminders db plantId userId =
     (if owned_plant db plantId userId = [] then None
      else Some (sort_key nextReminder
                   (map format_reminder
                      (filter (\<lambda>r. r_user_plant_id r = plantId \<and> r_is_active r)
                         (plant_reminders db)))))"

record reminderData =
  rd_type :: reminder_type
  rd_intervalDays :: int
  rd_startDate :: date_string
  rd_notes :: "string option"

text \<open>
  \<^verbatim>\<open>SELECT * FROM plant_reminders WHERE user_plant_id = ? AND reminder_type = ? AND
  is_active = 1\<close>
\<close>

definition existingReminders ::
  "database \<Rightarrow> nat \<Rightarrow> reminder_type \<Rightarrow> plant_reminders_row list" where
  "existingReminders db plantId ty =
     filter (\<lambda>r. r_user_plant_id r = plantId \<and> r_reminder_type r = ty \<and> r_is_active r)
       (plant_reminders db)"

definition saveReminder ::
  "zone \<Rightarrow> database \<Rightarrow> nat \<Rightarrow> reminderData \<Rightarrow> nat
     \<Rightarrow> database \<times> (js_error + reminder option)" where
  "saveReminder z db plantId rd userId =
     (if owned_plant db plantId userId = [] then (db, Inr None)
      else
        case toISODate (setDate_plus z (new_Date z (rd_startDate rd)) (rd_intervalDays rd)) of
          Inl e \<Rightarrow> (db, Inl e)
        | Inr nextReminderStr \<Rightarrow>
            (case existingReminders db plantId (rd_type rd) of
               existing # _ \<Rightarrow>
                 let reminderId = r_reminder_id existing;
                     db1 = db\<lparr>plant_reminders :=
                             map (\<lambda>r. if r_reminder_id r = reminderId
                                        then r\<lparr>r_interval_days := rd_intervalDays rd,
                                               r_start_date := date_of (rd_startDate rd),
                                               r_next_reminder := nextReminderStr,
                                               r_notes := str_or_null (rd_notes rd)\<rparr>
                                        else r)
                                 (plant_reminders db)\<rparr>
                 in (db1, Inr (map_option format_reminder
                                 (first_row (reminder_by_id db1 reminderId))))
             | [] \<Rightarrow>
                 let insertId = next_reminder_id db;
                     db1 = db\<lparr>plant_reminders := plant_reminders db @
                             [\<lparr>r_reminder_id = insertId, r_user_plant_id = plantId,
                               r_reminder_type = rd_type rd,
                               r_start_date = date_of (rd_startDate rd),
                               r_interval_days = rd_intervalDays rd,
                               r_next_reminder = nextReminderStr, r_last_completed = None,
                               r_notes = str_or_null (rd_notes rd), r_is_active = True\<rparr>],
                           next_reminder_id := Suc insertId\<rparr>
                 in (db1, Inr (map_option format_reminder
                                 (first_row (reminder_by_id db1 insertId))))))"

text \<open>
  \<^verbatim>\<open>SELECT r.* FROM plant_reminders r JOIN user_plants up ON r.user_plant_id =
  up.user_plant_id WHERE r.reminder_id = ? AND up.user_id = ? AND up.is_deleted = 0\<close>:
  the ownership check of \<^verbatim>\<open>completeReminder\<close> and \<^verbatim>\<open>deleteReminder\<close>.
\<close>

definition owned_reminder :: "database \<Rightarrow> nat \<Rightarrow> nat \<Rightarrow> plant_reminders_row list" where
  "owned_reminder db reminderId userId =
     [r. r \<leftarrow> plant_reminders db, up \<leftarrow> user_plants db,
        r_user_plant_id r = up_user_plant_id up,
        r_reminder_id r = reminderId \<and> up_user_id up = userId \<and> \<not> up_is_deleted up]"

definition completeReminder ::
  "zone \<Rightarrow> database \<Rightarrow> nat \<Rightarrow> nat \<Rightarrow> instant
     \<Rightarrow> database \<times> (js_error + reminder option)" where
  "completeReminder z db reminderId userId now =
     (case owned_reminder db reminderId userId of
        [] \<Rightarrow> (db, Inr None)
      | reminder # _ \<Rightarrow>
          (case toISODate (Some now) of
             Inl e \<Rightarrow> (db, Inl e)
           | Inr today \<Rightarrow>
               (case toISODate (setDate_plus z (Some now) (r_interval_days reminder)) of
                  Inl e \<Rightarrow> (db, Inl e)
                | Inr nextReminderStr \<Rightarrow>
                    let db1 = db\<lparr>plant_reminders :=
                                map (\<lambda>r. if r_reminder_id r = reminderId
                                           then r\<lparr>r_last_completed := Some today,
                                                  r_next_reminder := nextReminderStr\<rparr>
                                           else r)
                                    (plant_reminders db)\<rparr>
                    in (db1, Inr (map_option format_reminder
                                    (first_row (reminder_by_id db1 reminderId)))))))"

definition deleteReminder :: "database \<Rightarrow> nat \<Rightarrow> nat \<Rightarrow> database \<times> bool" where
  "deleteReminder db reminderId userId =
     (if owned_reminder db reminderId userId = [] then (db, False)
      else
        (db\<lparr>plant_reminders :=
              map (\<lambda>r. if r_reminder_id r = reminderId then r\<lparr>r_is_active := False\<rparr> else r)
                  (plant_reminders db)\<rparr>,
         length (reminder_by_id db reminderId) > 0))"

text \<open>The row shape of the upcoming-reminders query.\<close>

record upcoming =
  u_id :: nat
  u_type :: reminder_type
  u_nextReminder :: date
  u_intervalDays :: int
  u_notes :: "string option"
  u_plantId :: nat
  u_plantName :: string
  u_plantSpecies :: string

definition upcoming_of ::
  "plant_reminders_row \<Rightarrow> user_plants_row \<Rightarrow> all_plants_row \<Rightarrow> upcoming" where
  "upcoming_of r up ap =
     \<lparr>u_id = r_reminder_id r, u_type = r_reminder_type r, u_nextReminder = r_next_reminder r,
      u_intervalDays = r_interval_days r, u_notes = r_notes r,
      u_plantId = up_user_plant_id up, u_plantName = ap_plant_cultivar ap,
      u_plantSpecies = ap_plant_species ap\<rparr>"

text \<open>
  \<^verbatim>\<open>... FROM plant_reminders r JOIN user_plants up ON r.user_plant_id = up.user_plant_id
  JOIN all_plants ap ON up.plant_id = ap.plant_id WHERE up.user_id = ? AND up.is_deleted = 0
  AND r.is_active = 1 AND r.next_reminder BETWEEN ? AND ? ORDER BY r.next_reminder ASC\<close>
\<close>

definition getUpcomingReminders ::
  "zone \<Rightarrow> database \<Rightarrow> nat \<Rightarrow> int \<Rightarrow> instant \<Rightarrow> js_error + upcoming list" where
  "getUpcomingReminders z db userId daysAhead now =
     (case toISODate (Some now) of
        Inl e \<Rightarrow> Inl e
      | Inr today \<Rightarrow>
          (case toISODate (setDate_plus z (Some now) daysAhead) of
             Inl e \<Rightarrow> Inl e
           | Inr futureDateStr \<Rightarrow>
               Inr (sort_key u_nextReminder
                      [upcoming_of r up ap. r \<leftarrow> plant_reminders db, up \<leftarrow> user_plants db,
                         r_user_plant_id r = up_user_plant_id up, ap \<leftarrow> all_plants db,
                         up_plant_id up = ap_plant_id ap,
                         up_user_id up = userId \<and> \<not> up_is_deleted up \<and> r_is_active r
                           \<and> today \<le> r_next_reminder r \<and> r_next_reminder r \<le> futureDateStr])))"

section \<open>Health service\<close>

record healthRemark =
  hr_id :: nat
  hr_remarks :: string
  hr_createdAt :: int

definition remark_of :: "plant_health_row \<Rightarrow> healthRemark" where
  "remark_of h = \<lparr>hr_id = h_health_id h, hr_remarks = h_remarks h, hr_createdAt = h_created_at h\<rparr>"

text \<open>
  \<^verbatim>\<open>SELECT ... FROM plant_health WHERE user_plant_id = ? ORDER BY created_at DESC LIMIT 1\<close>;
  \<^verbatim>\<open>null\<close> is \<open>None\<close>, both when the plant is not found and when it has no remarks.
\<close>

definition getLatestHealthRemark :: "database \<Rightarrow> nat \<Rightarrow> nat \<Rightarrow> healthRemark option" where
  "getLatestHealthRemark db plantId userId =
     (if owned_plant db plantId userId = [] then None
      else
        first_row
          (sort_key (\<lambda>h. - hr_createdAt h)
             (map remark_of (filter (\<lambda>h. h_user_plant_id h = plantId) (plant_health db)))))"

text \<open>
  The handler of \<^verbatim>\<open>GET /api/plants/:id/health/latest\<close> for an authenticated session:
  status and JSON body.
\<close>

datatype body = Message string | Remark healthRemark

datatype response = Response nat body

definition get_health_latest :: "database \<Rightarrow> nat \<Rightarrow> nat \<Rightarrow> response" where
  "get_health_latest db plantId userId =
     (case getLatestHealthRemark db plantId userId of
        None \<Rightarrow> Response 404 (Message ''No health remarks found for this plant'')
      | Some latestRemark \<Rightarrow> Response 200 (Remark latestRemark))"

section \<open>Vocabulary of the statements\<close>

text \<open>
  The active catalog rows whose cultivar and species are exactly the given strings (no case
  folding, no trimming).
\<close>

definition matching_types :: "database \<Rightarrow> string \<Rightarrow> string \<Rightarrow> all_plants_row list" where
  "matching_types db c s =
     filter (\<lambda>ap. ap_plant_cultivar ap = c \<and> ap_plant_species ap = s \<and> \<not> ap_is_deleted ap)
       (all_plants db)"

text \<open>The row \<^verbatim>\<open>addPlant\<close> inserts into \<^verbatim>\<open>user_plants\<close>.\<close>

definition new_user_plant :: "database \<Rightarrow> nat \<Rightarrow> plantData \<Rightarrow> nat \<Rightarrow> user_plants_row" where
  "new_user_plant db1 tid pd userId =
     \<lparr>up_user_plant_id = next_user_plant_id db1, up_user_id = userId,
      up_plant_id = tid, up_planting_time = plantingTime pd,
      up_est_cropping = str_or_null (estCropping pd),
      up_photo_url = photoUrl pd, up_is_deleted = False\<rparr>"

text \<open>
  The store with every \<^verbatim>\<open>user_plants\<close> row of the given id removed: the plant does
  not exist.
\<close>

definition without_plant :: "database \<Rightarrow> nat \<Rightarrow> database" where
  "without_plant db plantId =
     db\<lparr>user_plants := filter (\<lambda>up. up_user_plant_id up \<noteq> plantId) (user_plants db)\<rparr>"

text \<open>The health rows of a plant.\<close>

definition plant_remarks :: "database \<Rightarrow> nat \<Rightarrow> plant_health_row list" where
  "plant_remarks db plantId = filter (\<lambda>h. h_user_plant_id h = plantId) (plant_health db)"

text \<open>
  A reminder is due between two dates: it is active, its plant is the user's and not
  soft-deleted, and its due date lies in the closed interval from \<open>today\<close> to
  \<open>future\<close>.
\<close>

definition due_between ::
  "database \<Rightarrow> nat \<Rightarrow> date \<Rightarrow> date \<Rightarrow> plant_reminders_row \<Rightarrow> bool" where
  "due_between db userId today future r =
     (r_is_active r \<and> owned_plant db (r_user_plant_id r) userId \<noteq> []
      \<and> today \<le> r_next_reminder r \<and> r_next_reminder r \<le> future)"

text \<open>The rows the join of \<^verbatim>\<open>getUpcomingReminders\<close> produces for one reminder.\<close>

definition joined ::
  "database \<Rightarrow> nat \<Rightarrow> date \<Rightarrow> date \<Rightarrow> plant_reminders_row \<Rightarrow> upcoming list" where
  "joined db userId today future r =
     [upcoming_of r up ap. up \<leftarrow> user_plants db,
        r_user_plant_id r = up_user_plant_id up, ap \<leftarrow> all_plants db,
        up_plant_id up = ap_plant_id ap,
        up_user_id up = userId \<and> \<not> up_is_deleted up \<and> r_is_active r
          \<and> today \<le> r_next_reminder r \<and> r_next_reminder r \<le> future]"

text \<open>A zone whose offset from UTC never changes.\<close>

definition fixed_zone :: "int \<Rightarrow> zone" where
  "fixed_zone off = \<lparr>tza_utc = (\<lambda>t. off), tza_local = (\<lambda>lt. off)\<rparr>"

section \<open>A concrete server\<close>

text \<open>
  Europe/Tallinn in 2025: two hours ahead of UTC, three hours from 2025-03-30 01:00 UTC
  (day 20177) to 2025-10-26 01:00 UTC (day 20387). A local time the clocks skip or repeat is
  read with the offset in force before the change.
\<close>

definition tallinn :: zone where
  "tallinn =
     \<lparr>tza_utc = (\<lambda>t. if 20177 * 86400000 + 3600000 \<le> t \<and> t < 20387 * 86400000 + 3600000
                       then 10800000 else 7200000),
      tza_local = (\<lambda>lt. if 20177 * 86400000 + 14400000 \<le> lt \<and> lt < 20387 * 86400000 + 14400000
                         then 10800000 else 7200000)\<rparr>"

text \<open>
  User 1 grows a Roma tomato planted on 2025-03-01 (day 20148), with an active watering
  reminder every 3 days and a fertilizing reminder that was deleted. User 2 owns nothing.
\<close>

definition roma :: all_plants_row where
  "roma = \<lparr>ap_plant_id = 1, ap_plant_cultivar = ''Roma'', ap_plant_species = ''Tomato'',
            ap_is_deleted = False\<rparr>"

definition roma_plant :: user_plants_row where
  "roma_plant = \<lparr>up_user_plant_id = 1, up_user_id = 1, up_plant_id = 1,
                  up_planting_time = 20148, up_est_cropping = Some ''60'',
                  up_photo_url = Some ''/uploads/roma.jpg'', up_is_deleted = False\<rparr>"

definition watering_rem :: plant_reminders_row where
  "watering_rem = \<lparr>r_reminder_id = 1, r_user_plant_id = 1, r_reminder_type = watering,
                    r_start_date = 20148, r_interval_days = 3, r_next_reminder = 20151,
                    r_last_completed = None, r_notes = None, r_is_active = True\<rparr>"

definition fertilizing_rem :: plant_reminders_row where
  "fertilizing_rem = \<lparr>r_reminder_id = 2, r_user_plant_id = 1, r_reminder_type = fertilizing,
                       r_start_date = 20148, r_interval_days = 14, r_next_reminder = 20162,
                       r_last_completed = None, r_notes = None, r_is_active = False\<rparr>"

definition garden :: database where
  "garden = \<lparr>all_plants = [roma], user_plants = [roma_plant],
              plant_reminders = [watering_rem, fertilizing_rem], plant_health = [],
              next_plant_id = 2, next_user_plant_id = 2, next_reminder_id = 3,
              next_health_id = 1\<rparr>"


text \<open>
  2025-03-29, 00:30 UTC: day 20176, the day before the clocks of Tallinn go forward; there it
  is 02:30 on the 29th.
\<close>

definition march_29 :: instant where
  "march_29 = 20176 * 86400000 + 1800000"

text \<open>
  The same garden, its only reminder an active watering reminder due on 2025-04-01
  (day 20179), three days after the 29th of March.
\<close>

definition april_rem :: plant_reminders_row where
  "april_rem = watering_rem\<lparr>r_next_reminder := 20179\<rparr>"

definition garden_april :: database where
  "garden_april = garden\<lparr>plant_reminders := [april_rem]\<rparr>"


text \<open>A second cultivar, not in the catalog yet.\<close>

definition cherry :: plantData where
  "cherry = \<lparr>cultivar = ''Cherry'', species = ''Tomato'', plantingTime = 20160,
             estCropping = Some ''70'', photoUrl = None\<rparr>"

text \<open>The same data, with a new photo uploaded and the form field \<^verbatim>\<open>est_cropping\<close> 0.\<close>

definition cherry_photo :: plantData where
  "cherry_photo = cherry\<lparr>estCropping := Some ''0'', photoUrl := Some ''/uploads/cherry.jpg''\<rparr>"

text \<open>The \<^verbatim>\<open>INSERT INTO user_plants\<close> fails, nothing else does.\<close>

definition insert_fails :: "step \<Rightarrow> bool" where
  "insert_fails s = (s = InsertUserPlant)"

text \<open>The same garden with two health remarks on the tomato, the second one later.\<close>

definition aphids :: plant_health_row where
  "aphids = \<lparr>h_health_id = 1, h_user_plant_id = 1, h_remarks = ''aphids on the lower leaves'',
              h_created_at = 1741000000\<rparr>"

definition blight :: plant_health_row where
  "blight = \<lparr>h_health_id = 2, h_user_plant_id = 1, h_remarks = ''early blight'',
              h_created_at = 1741600000\<rparr>"

definition clinic :: database where
  "clinic = garden\<lparr>plant_health := [aphids, blight], next_health_id := 3\<rparr>"

section \<open>Dates\<close>

lemma toISODate_Some [simp]: "toISODate (Some t) = Inr (utcDate t)"
  by (simp add: toISODate_def)

lemma toISODate_None [simp]: "toISODate None = Inl RangeError"
  by (simp add: toISODate_def)

lemma toISODate_Inr: "toISODate d = Inr x \<longleftrightarrow> (\<exists>t. d = Some t \<and> x = utcDate t)"
  by (cases d) auto

text \<open>
  Where the offset never changes, \<^verbatim>\<open>setDate\<close> adds whole days and the UTC date moves
  by the same number of days.
\<close>

lemma setDate_plus_fixed_zone:
  "setDate_plus (fixed_zone off) (Some t) n = TimeClip (t + n * msPerDay)"
  by (simp add: setDate_plus_def fixed_zone_def LocalTime_def UTC_def)

lemma utcDate_plus_days: "utcDate (t + n * msPerDay) = utcDate t + n"
  by (simp add: utcDate_def msPerDay_def)

lemma toISODate_setDate_plus_fixed_zone:
  "toISODate (setDate_plus (fixed_zone off) (Some t) n) = Inr x \<Longrightarrow> x = utcDate t + n"
  by (auto simp: setDate_plus_fixed_zone TimeClip_def utcDate_plus_days split: if_splits)

section \<open>Keys and queries\<close>

lemma distinct_key_eq:
  "distinct (map f xs) \<Longrightarrow> x \<in> set xs \<Longrightarrow> y \<in> set xs \<Longrightarrow> f x = f y \<Longrightarrow> x = y"
  by (meson distinct_map inj_onD)

lemma filter_key_single:
  "distinct (map f xs) \<Longrightarrow> x \<in> set xs \<Longrightarrow> filter (\<lambda>y. f y = f x) xs = [x]"
proof (induction xs)
  case Nil
  then show ?case by simp
next
  case (Cons a xs)
  show ?case
  proof (cases "a = x")
    case True
    have "filter (\<lambda>y. f y = f x) xs = []"
      using Cons.prems(1) True by (auto simp: filter_empty_conv image_iff)
    with True show ?thesis by simp
  next
    case False
    with Cons.prems have "x \<in> set xs" and "f a \<noteq> f x" by auto
    with Cons show ?thesis by simp
  qed
qed

lemma first_row_None: "first_row xs = None \<longleftrightarrow> set xs = {}"
  by (cases xs) (simp_all add: first_row_def)

lemma rollback_same [simp]: "rollback db db = db"
  by (simp add: rollback_def)

lemma rollback_tables [simp]:
  "all_plants (rollback db0 dbw) = all_plants db0"
  "user_plants (rollback db0 dbw) = user_plants db0"
  "plant_reminders (rollback db0 dbw) = plant_reminders db0"
  "plant_health (rollback db0 dbw) = plant_health db0"
  by (simp_all add: rollback_def)

section \<open>Completing a reminder\<close>

lemma set_owned_reminder:
  "set (owned_reminder db reminderId userId) =
     {r \<in> set (plant_reminders db). r_reminder_id r = reminderId \<and>
        (\<exists>up \<in> set (user_plants db). up_user_plant_id up = r_user_plant_id r
            \<and> up_user_id up = userId \<and> \<not> up_is_deleted up)}"
  by (auto simp: owned_reminder_def)

lemma reminder_by_id_update:
  assumes "\<And>r. r_reminder_id (g r) = r_reminder_id r"
  shows "reminder_by_id
           (db\<lparr>plant_reminders :=
                 map (\<lambda>r. if r_reminder_id r = i then g r else r) (plant_reminders db)\<rparr>) i
         = map g (reminder_by_id db i)"
  using assms by (simp add: reminder_by_id_def filter_map comp_def)

lemma completeReminder_result:
  assumes pk: "distinct (map r_reminder_id (plant_reminders db))"
    and r: "r \<in> set (plant_reminders db)" "r_reminder_id r = reminderId"
    and up: "up \<in> set (user_plants db)" "up_user_plant_id up = r_user_plant_id r"
            "up_user_id up = userId" "\<not> up_is_deleted up"
  shows "completeReminder z db reminderId userId now =
           (case setDate_plus z (Some now) (r_interval_days r) of
              None \<Rightarrow> (db, Inl RangeError)
            | Some t \<Rightarrow>
                (db\<lparr>plant_reminders :=
                      map (\<lambda>x. if r_reminder_id x = reminderId
                                 then x\<lparr>r_last_completed := Some (utcDate now),
                                        r_next_reminder := utcDate t\<rparr>
                                 else x)
                          (plant_reminders db)\<rparr>,
                 Inr (Some (format_reminder (r\<lparr>r_last_completed := Some (utcDate now),
                                                r_next_reminder := utcDate t\<rparr>)))))"
proof -
  have mem: "r \<in> set (owned_reminder db reminderId userId)"
    using r up by (auto simp: set_owned_reminder)
  then obtain x xs where ox: "owned_reminder db reminderId userId = x # xs"
    by (cases "owned_reminder db reminderId userId") auto
  then have "x \<in> set (owned_reminder db reminderId userId)" by simp
  then have "x \<in> set (plant_reminders db)" and "r_reminder_id x = reminderId"
    by (auto simp: set_owned_reminder)
  then have x: "x = r"
    using distinct_key_eq [OF pk _ r(1), of x] r(2) by simp
  have byid: "reminder_by_id db reminderId = [r]"
    using filter_key_single [OF pk r(1)] r(2) by (simp add: reminder_by_id_def)
  show ?thesis
    using ox x byid
    by (cases "setDate_plus z (Some now) (r_interval_days r)")
       (simp_all add: completeReminder_def Let_def reminder_by_id_update first_row_def)
qed

text \<open>
  On a server whose offset from UTC never changes, completing a reminder of an owned plant
  stores today and today + \<open>intervalDays\<close>, as long as that day is one a \<^verbatim>\<open>Date\<close> can
  hold.
\<close>

lemma completeReminder_fixed_zone:
  assumes "distinct (map r_reminder_id (plant_reminders db))"
    and "r \<in> set (plant_reminders db)" and "r_reminder_id r = reminderId"
    and "up \<in> set (user_plants db)" and "up_user_plant_id up = r_user_plant_id r"
    and "up_user_id up = userId" and "\<not> up_is_deleted up"
    and "abs (now + r_interval_days r * msPerDay) \<le> maxTime"
  shows "snd (completeReminder (fixed_zone off) db reminderId userId now) =
           Inr (Some (format_reminder
                        (r\<lparr>r_last_completed := Some (utcDate now),
                           r_next_reminder := utcDate now + r_interval_days r\<rparr>)))"
  using assms(8)
  by (simp add: completeReminder_result [OF assms(1-7)] setDate_plus_fixed_zone TimeClip_def
        utcDate_plus_days)

text \<open>
  C2. The due date today + \<open>intervalDays\<close> is not what the code stores on a server in
  Europe/Tallinn on 2025-03-29 at 00:30 UTC: completing the watering reminder (interval 3)
  stores and returns \<open>lastCompleted\<close> = 2025-03-29 (day 20176) and \<open>nextReminder\<close> =
  2025-03-31 (day 20178), today + 2. \<^verbatim>\<open>setDate\<close> moves the local time, 02:30 on the 29th,
  to 02:30 on the 1st of April, which after the clocks went forward is 23:30 UTC on the 31st
  of March, and \<^verbatim>\<open>toISOString\<close> reads the UTC date.
\<close>

theorem completeReminder_dst_day_short:
  "snd (completeReminder tallinn garden 1 1 march_29) =
     Inr (Some \<lparr>rem_id = 1, rem_type = watering, startDate = 20148, intervalDays = 3,
                nextReminder = 20178, lastCompleted = Some 20176, rem_notes = None,
                isActive = True\<rparr>)
   \<and> reminder_by_id (fst (completeReminder tallinn garden 1 1 march_29)) 1 =
       [watering_rem\<lparr>r_last_completed := Some 20176, r_next_reminder := 20178\<rparr>]
   \<and> utcDate march_29 = 20176 \<and> r_interval_days watering_rem = 3"
  by (simp add: completeReminder_def owned_reminder_def reminder_by_id_def first_row_def
        format_reminder_def setDate_plus_def TimeClip_def maxTime_def LocalTime_def UTC_def
        utcDate_def msPerDay_def tallinn_def march_29_def garden_def roma_plant_def
        watering_rem_def fertilizing_rem_def)



section \<open>Saving a reminder\<close>

lemma filter_map_cond:
  assumes "\<And>r. P (g r) = P r"
  shows "filter P (map (\<lambda>r. if c r then g r else r) xs)
         = map (\<lambda>r. if c r then g r else r) (filter P xs)"
  using assms by (induction xs) auto

lemma existingReminders_update:
  assumes "\<And>r. r_user_plant_id (g r) = r_user_plant_id r"
    and "\<And>r. r_reminder_type (g r) = r_reminder_type r"
    and "\<And>r. r_is_active (g r) = r_is_active r"
  shows "existingReminders
           (db\<lparr>plant_reminders :=
                 map (\<lambda>r. if r_reminder_id r = i then g r else r) (plant_reminders db)\<rparr>) p ty
         = map (\<lambda>r. if r_reminder_id r = i then g r else r) (existingReminders db p ty)"
  unfolding existingReminders_def using assms
  by (simp add: filter_map_cond)

lemma owned_plant_reminders [simp]:
  "owned_plant (db\<lparr>plant_reminders := rs\<rparr>) p u = owned_plant db p u"
  "owned_plant (db\<lparr>next_reminder_id := n\<rparr>) p u = owned_plant db p u"
  by (simp_all add: owned_plant_def)

lemma saveReminder_throws:
  assumes "owned_plant db plantId userId \<noteq> []"
    and "toISODate (setDate_plus z (new_Date z (rd_startDate rd)) (rd_intervalDays rd)) = Inl e"
  shows "saveReminder z db plantId rd userId = (db, Inl e)"
  using assms by (simp add: saveReminder_def)

text \<open>
  What a save that does not throw leaves, when the plant had at most one active reminder of
  the type: one active reminder of the type, with the supplied interval and start date and
  the due date \<open>nx\<close> the code computed; an existing row is overwritten where it stands.
\<close>

lemma saveReminder_result:
  assumes owned: "owned_plant db plantId userId \<noteq> []"
    and inv: "length (existingReminders db plantId (rd_type rd)) \<le> 1"
    and nx: "toISODate (setDate_plus z (new_Date z (rd_startDate rd)) (rd_intervalDays rd))
               = Inr nx"
  shows "\<exists>db' res x. saveReminder z db plantId rd userId = (db', Inr (Some res))
           \<and> existingReminders db' plantId (rd_type rd) = [x]
           \<and> r_interval_days x = rd_intervalDays rd
           \<and> r_start_date x = date_of (rd_startDate rd)
           \<and> r_next_reminder x = nx
           \<and> rem_id res = r_reminder_id x
           \<and> owned_plant db' plantId userId \<noteq> []
           \<and> (\<forall>e es. existingReminders db plantId (rd_type rd) = e # es \<longrightarrow>
                 map r_reminder_id (plant_reminders db') = map r_reminder_id (plant_reminders db)
                 \<and> r_reminder_id x = r_reminder_id e)"
proof (cases "existingReminders db plantId (rd_type rd)")
  case Nil
  let ?new = "\<lparr>r_reminder_id = next_reminder_id db, r_user_plant_id = plantId,
                 r_reminder_type = rd_type rd, r_start_date = date_of (rd_startDate rd),
                 r_interval_days = rd_intervalDays rd,
                 r_next_reminder = nx,
                 r_last_completed = None, r_notes = str_or_null (rd_notes rd),
                 r_is_active = True\<rparr>"
  let ?db1 = "db\<lparr>plant_reminders := plant_reminders db @ [?new],
                  next_reminder_id := Suc (next_reminder_id db)\<rparr>"
  have save: "saveReminder z db plantId rd userId =
                (?db1, Inr (map_option format_reminder
                              (first_row (reminder_by_id ?db1 (next_reminder_id db)))))"
    using Nil owned nx
    by (simp add: saveReminder_def Let_def)
  have ex: "existingReminders ?db1 plantId (rd_type rd) = [?new]"
    using Nil by (simp add: existingReminders_def)
  have "?new \<in> set (reminder_by_id ?db1 (next_reminder_id db))"
    by (simp add: reminder_by_id_def)
  then obtain y ys where by_id: "reminder_by_id ?db1 (next_reminder_id db) = y # ys"
    by (cases "reminder_by_id ?db1 (next_reminder_id db)") auto
  then have "y \<in> set (reminder_by_id ?db1 (next_reminder_id db))" by simp
  then have y: "r_reminder_id y = next_reminder_id db"
    unfolding reminder_by_id_def by auto
  have res: "saveReminder z db plantId rd userId = (?db1, Inr (Some (format_reminder y)))"
    unfolding save by_id by (simp add: first_row_def)
  show ?thesis
    unfolding res using ex y owned Nil
    by (intro exI [of _ ?db1] exI [of _ "format_reminder y"] exI [of _ ?new])
       (simp add: format_reminder_def)
next
  case (Cons e es)
  with inv have es: "es = []" by simp
  have "e \<in> set (existingReminders db plantId (rd_type rd))" using Cons by simp
  then have e: "e \<in> set (reminder_by_id db (r_reminder_id e))"
    by (simp add: existingReminders_def reminder_by_id_def)
  then obtain y ys where by_id: "reminder_by_id db (r_reminder_id e) = y # ys"
    by (cases "reminder_by_id db (r_reminder_id e)") auto
  then have "y \<in> set (reminder_by_id db (r_reminder_id e))" by simp
  then have y: "r_reminder_id y = r_reminder_id e" by (simp add: reminder_by_id_def)
  show ?thesis
    using Cons es owned by_id y nx
    by (simp add: saveReminder_def Let_def existingReminders_update reminder_by_id_update
          first_row_def format_reminder_def comp_def)
qed

text \<open>
  The invariant of the reminder table: at most one active reminder per plant and type. The
  three writing operations of the reminder service keep it, for every plant and type; the
  plant and health services do not write to the table. A save on a plant that already has
  several active reminders of the type overwrites the first and leaves the others active.
\<close>

lemma saveReminder_active_count:
  assumes owned: "owned_plant db plantId userId \<noteq> []"
    and nx: "toISODate (setDate_plus z (new_Date z (rd_startDate rd)) (rd_intervalDays rd))
               = Inr nx"
  shows "length (existingReminders (fst (saveReminder z db plantId rd userId)) plantId (rd_type rd))
           = max 1 (length (existingReminders db plantId (rd_type rd)))"
proof (cases "existingReminders db plantId (rd_type rd)")
  case Nil
  with owned nx show ?thesis
    by (simp add: saveReminder_def Let_def existingReminders_def)
next
  case (Cons e es)
  with owned nx show ?thesis
    by (simp add: saveReminder_def Let_def existingReminders_update)
qed

lemma saveReminder_keeps_invariant:
  assumes "length (existingReminders db p ty) \<le> 1"
  shows "length (existingReminders (fst (saveReminder z db plantId rd userId)) p ty) \<le> 1"
proof (cases "owned_plant db plantId userId = []")
  case True
  with assms show ?thesis by (simp add: saveReminder_def)
next
  case owned: False
  show ?thesis
  proof (cases "toISODate (setDate_plus z (new_Date z (rd_startDate rd)) (rd_intervalDays rd))")
    case (Inl e)
    with owned assms show ?thesis by (simp add: saveReminder_throws)
  next
    case nx: (Inr nx)
    show ?thesis
    proof (cases "existingReminders db plantId (rd_type rd)")
      case (Cons e es)
      with owned assms nx show ?thesis
        by (simp add: saveReminder_def Let_def existingReminders_update)
    next
      case Nil
      show ?thesis
      proof (cases "p = plantId \<and> ty = rd_type rd")
        case True
        with saveReminder_active_count [OF owned nx] Nil show ?thesis by simp
      next
        case False
        with owned Nil assms nx show ?thesis
          by (auto simp: saveReminder_def Let_def existingReminders_def)
      qed
    qed
  qed
qed

lemma completeReminder_keeps_invariant:
  "length (existingReminders (fst (completeReminder z db reminderId userId now)) p ty)
     = length (existingReminders db p ty)"
  by (cases "owned_reminder db reminderId userId";
      cases "setDate_plus z (Some now) (r_interval_days (hd (owned_reminder db reminderId userId)))")
     (simp_all add: completeReminder_def Let_def existingReminders_update)

lemma deactivate_active_count:
  "length (filter (\<lambda>r. r_user_plant_id r = p \<and> r_reminder_type r = ty \<and> r_is_active r)
             (map (\<lambda>r. if r_reminder_id r = i then r\<lparr>r_is_active := False\<rparr> else r) xs))
     \<le> length (filter (\<lambda>r. r_user_plant_id r = p \<and> r_reminder_type r = ty \<and> r_is_active r) xs)"
  by (induction xs) simp_all

lemma deleteReminder_keeps_invariant:
  "length (existingReminders (fst (deleteReminder db reminderId userId)) p ty)
     \<le> length (existingReminders db p ty)"
  using deactivate_active_count [of p ty reminderId "plant_reminders db"]
  by (simp add: deleteReminder_def existingReminders_def)

text \<open>
  On a server whose offset from UTC never changes, a start date in the dashed spelling gives
  the due date start + interval.
\<close>

lemma saveReminder_fixed_zone:
  assumes "toISODate (setDate_plus (fixed_zone off) (new_Date (fixed_zone off) (Dashed d)) n)
             = Inr nx"
  shows "nx = d + n"
proof -
  from assms obtain t where t: "new_Date (fixed_zone off) (Dashed d) = Some t"
    by (cases "new_Date (fixed_zone off) (Dashed d)") (simp_all add: setDate_plus_def)
  then have "t = d * msPerDay"
    by (simp add: new_Date_def TimeClip_def split: if_splits)
  then have "utcDate t = d" by (simp add: utcDate_def msPerDay_def)
  with assms t toISODate_setDate_plus_fixed_zone [of off t n nx] show ?thesis by simp
qed

text \<open>
  Two more inputs the route lets through. An interval of 100000000 days leaves the range of
  \<^verbatim>\<open>Date\<close>: the call throws and writes nothing. The start date 2025/03/01 (day 20148) in
  the slashed spelling is midnight in Tallinn, 22:00 UTC of the day before, and with interval
  3 the due date is 2025-03-03 (day 20150).
\<close>

lemma saveReminder_out_of_range:
  "saveReminder tallinn garden 1
     \<lparr>rd_type = watering, rd_intervalDays = 100000000, rd_startDate = Dashed 20176,
      rd_notes = None\<rparr> 1
   = (garden, Inl RangeError)"
  by (simp add: saveReminder_def owned_plant_def new_Date_def setDate_plus_def TimeClip_def
        maxTime_def LocalTime_def UTC_def msPerDay_def tallinn_def garden_def roma_plant_def)

lemma saveReminder_slashed:
  "toISODate (setDate_plus tallinn (new_Date tallinn (Slashed 20148)) 3) = Inr 20150"
  by (simp add: new_Date_def setDate_plus_def TimeClip_def maxTime_def LocalTime_def UTC_def
        utcDate_def msPerDay_def tallinn_def)

text \<open>
  C1. The due date start date + interval is not what the code stores on a
  server in Europe/Tallinn for the start date 2025-03-29 (day 20176) and interval 3: the
  call succeeds, the one active watering reminder of the plant is the old row overwritten,
  with the supplied start date and interval, and its \<open>nextReminder\<close> is 2025-03-31
  (day 20178), not 2025-04-01. \<^verbatim>\<open>new Date\<close> is midnight UTC, 02:00 in Tallinn;
  \<^verbatim>\<open>setDate\<close> moves that local time to 02:00 on the 1st of April, which after the clocks
  went forward is 23:00 UTC on the 31st of March, and \<^verbatim>\<open>toISOString\<close> reads the UTC
  date.
\<close>

theorem saveReminder_dst_day_short:
  "snd (saveReminder tallinn garden 1
          \<lparr>rd_type = watering, rd_intervalDays = 3, rd_startDate = Dashed 20176,
           rd_notes = None\<rparr> 1) =
     Inr (Some \<lparr>rem_id = 1, rem_type = watering, startDate = 20176, intervalDays = 3,
                nextReminder = 20178, lastCompleted = None, rem_notes = None,
                isActive = True\<rparr>)
   \<and> existingReminders
        (fst (saveReminder tallinn garden 1
                \<lparr>rd_type = watering, rd_intervalDays = 3, rd_startDate = Dashed 20176,
                 rd_notes = None\<rparr> 1)) 1 watering =
       [watering_rem\<lparr>r_start_date := 20176, r_next_reminder := 20178\<rparr>]
   \<and> existingReminders garden 1 watering = [watering_rem]
   \<and> r_interval_days watering_rem = 3"
  by (simp add: saveReminder_def owned_plant_def existingReminders_def reminder_by_id_def
        first_row_def format_reminder_def str_or_null_def date_of_def new_Date_def
        setDate_plus_def TimeClip_def maxTime_def LocalTime_def UTC_def utcDate_def
        msPerDay_def tallinn_def garden_def roma_plant_def watering_rem_def
        fertilizing_rem_def)

section \<open>Upcoming reminders\<close>

lemma concat_map_none:
  "(\<And>y. y \<in> set xs \<Longrightarrow> \<not> P y) \<Longrightarrow> concat (map (\<lambda>y. if P y then F y else []) xs) = []"
  by (induction xs) auto

lemma concat_map_unique:
  assumes "distinct xs" and "x \<in> set xs" and "P x"
    and "\<And>y. y \<in> set xs \<Longrightarrow> P y \<Longrightarrow> y = x"
  shows "concat (map (\<lambda>y. if P y then F y else []) xs) = F x"
  using assms
proof (induction xs)
  case Nil
  then show ?case by simp
next
  case (Cons a xs)
  show ?case
  proof (cases "a = x")
    case True
    have "concat (map (\<lambda>y. if P y then F y else []) xs) = []"
    proof (rule concat_map_none)
      fix y assume y: "y \<in> set xs"
      show "\<not> P y"
      proof
        assume "P y"
        with Cons.prems(4) [of y] y have "y = x" by simp
        with y True Cons.prems(1) show False by simp
      qed
    qed
    with True Cons.prems(3) show ?thesis by simp
  next
    case False
    with Cons.prems have "x \<in> set xs" "\<not> P a" "distinct xs" by auto
    with Cons.IH [OF \<open>distinct xs\<close> \<open>x \<in> set xs\<close> Cons.prems(3)] Cons.prems(4)
    show ?thesis by simp
  qed
qed

lemma getUpcomingReminders_joined:
  "getUpcomingReminders z db userId w now =
     (case toISODate (setDate_plus z (Some now) w) of
        Inl e \<Rightarrow> Inl e
      | Inr future \<Rightarrow>
          Inr (sort_key u_nextReminder
                 (concat (map (joined db userId (utcDate now) future) (plant_reminders db)))))"
proof (cases "toISODate (setDate_plus z (Some now) w)")
  case (Inl e)
  then show ?thesis by (simp add: getUpcomingReminders_def)
next
  case (Inr future)
  have "[upcoming_of r up ap. r \<leftarrow> plant_reminders db, up \<leftarrow> user_plants db,
           r_user_plant_id r = up_user_plant_id up, ap \<leftarrow> all_plants db,
           up_plant_id up = ap_plant_id ap,
           up_user_id up = userId \<and> \<not> up_is_deleted up \<and> r_is_active r
             \<and> utcDate now \<le> r_next_reminder r \<and> r_next_reminder r \<le> future]
        = concat (map (joined db userId (utcDate now) future) (plant_reminders db))"
    by (intro arg_cong [where f = concat] map_cong refl) (simp add: joined_def)
  with Inr show ?thesis by (simp add: getUpcomingReminders_def)
qed

lemma joined_one:
  assumes pk_up: "distinct (map up_user_plant_id (user_plants db))"
    and pk_ap: "distinct (map ap_plant_id (all_plants db))"
    and fk: "\<forall>up \<in> set (user_plants db). \<exists>ap \<in> set (all_plants db). ap_plant_id ap = up_plant_id up"
  shows "(due_between db userId today future r \<longrightarrow>
            (\<exists>up ap. joined db userId today future r = [upcoming_of r up ap]))
       \<and> (\<not> due_between db userId today future r \<longrightarrow> joined db userId today future r = [])"
proof (cases "\<exists>up \<in> set (user_plants db). up_user_plant_id up = r_user_plant_id r")
  case False
  then have "owned_plant db (r_user_plant_id r) userId = []"
    by (auto simp: owned_plant_def filter_empty_conv)
  moreover have "joined db userId today future r = []"
    unfolding joined_def by (rule concat_map_none) (use False in auto)
  ultimately show ?thesis by (simp add: due_between_def)
next
  case True
  then obtain up where up: "up \<in> set (user_plants db)" "up_user_plant_id up = r_user_plant_id r"
    by blast
  have uniq_up: "y = up" if "y \<in> set (user_plants db)" "r_user_plant_id r = up_user_plant_id y" for y
    using distinct_key_eq [OF pk_up that(1) up(1)] that(2) up(2) by simp
  from fk up(1) obtain ap where ap: "ap \<in> set (all_plants db)" "ap_plant_id ap = up_plant_id up"
    by blast
  have uniq_ap: "y = ap" if "y \<in> set (all_plants db)" "up_plant_id up = ap_plant_id y" for y
    using distinct_key_eq [OF pk_ap that(1) ap(1)] that(2) ap(2) by simp
  have d_up: "distinct (user_plants db)" and d_ap: "distinct (all_plants db)"
    using pk_up pk_ap by (simp_all add: distinct_map)
  let ?c = "up_user_id up = userId \<and> \<not> up_is_deleted up \<and> r_is_active r
          \<and> today \<le> r_next_reminder r \<and> r_next_reminder r \<le> future"
  have j: "joined db userId today future r = (if ?c then [upcoming_of r up ap] else [])"
    unfolding joined_def
    apply (subst concat_map_unique [OF d_up up(1), where P = "\<lambda>y. r_user_plant_id r = up_user_plant_id y"])
      apply (simp add: up(2))
     apply (erule (1) uniq_up)
    apply (subst concat_map_unique [OF d_ap ap(1), where P = "\<lambda>y. up_plant_id up = ap_plant_id y"])
      apply (simp add: ap(2))
     apply (erule (1) uniq_ap)
    apply (rule refl)
    done
  have "owned_plant db (r_user_plant_id r) userId \<noteq> [] \<longleftrightarrow> up_user_id up = userId \<and> \<not> up_is_deleted up"
  proof
    assume "owned_plant db (r_user_plant_id r) userId \<noteq> []"
    then obtain y where y: "y \<in> set (user_plants db)" "up_user_plant_id y = r_user_plant_id r"
      "up_user_id y = userId" "\<not> up_is_deleted y"
      by (auto simp: owned_plant_def filter_empty_conv)
    with uniq_up [of y] have "y = up" by simp
    with y show "up_user_id up = userId \<and> \<not> up_is_deleted up" by simp
  next
    assume "up_user_id up = userId \<and> \<not> up_is_deleted up"
    with up show "owned_plant db (r_user_plant_id r) userId \<noteq> []"
      by (auto simp: owned_plant_def filter_empty_conv)
  qed
  then have "due_between db userId today future r \<longleftrightarrow> ?c"
    by (auto simp: due_between_def)
  with j show ?thesis by auto
qed

lemma joined_fields:
  "u \<in> set (joined db userId today future r) \<Longrightarrow>
     u_id u = r_reminder_id r \<and> u_nextReminder u = r_next_reminder r \<and> u_type u = r_reminder_type r
     \<and> u_intervalDays u = r_interval_days r \<and> u_notes u = r_notes r \<and> u_plantId u = r_user_plant_id r"
  by (auto simp: joined_def upcoming_of_def split: if_splits)

lemma concat_joined_ids:
  assumes "\<And>r. r \<in> set rs \<Longrightarrow> (q r \<longrightarrow> (\<exists>u. j r = [u])) \<and> (\<not> q r \<longrightarrow> j r = [])"
    and "\<And>r u. u \<in> set (j r) \<Longrightarrow> f u = g r"
  shows "map f (concat (map j rs)) = map g (filter q rs)"
  using assms
proof (induction rs)
  case Nil
  then show ?case by simp
next
  case (Cons r rs)
  have "map f (j r) = (if q r then [g r] else [])"
  proof (cases "q r")
    case True
    with Cons.prems(1) [of r] obtain u where u: "j r = [u]" by auto
    with Cons.prems(2) [of u r] have "f u = g r" by simp
    with u True show ?thesis by simp
  next
    case False
    with Cons.prems(1) [of r] show ?thesis by simp
  qed
  moreover have "map f (concat (map j rs)) = map g (filter q rs)"
    by (rule Cons.IH) (use Cons.prems in auto)
  ultimately show ?case by simp
qed

lemma distinct_map_insort_key:
  "distinct (map f (insort_key k x xs)) \<longleftrightarrow> f x \<notin> f ` set xs \<and> distinct (map f xs)"
  by (induction xs) (auto simp: set_insort_key)

lemma distinct_map_sort_key:
  "distinct (map f (sort_key k xs)) \<longleftrightarrow> distinct (map f xs)"
  by (induction xs) (simp_all add: distinct_map_insort_key)

text \<open>
  What \<^verbatim>\<open>getUpcomingReminders\<close> returns when it returns, with the primary keys of the
  three tables and every plant's catalog entry present: each once and in ascending order of
  \<open>nextReminder\<close>, exactly the active reminders of the user's not soft-deleted plants due
  between today and the end date the code computed.
\<close>

lemma getUpcomingReminders_between:
  assumes pk_r: "distinct (map r_reminder_id (plant_reminders db))"
    and pk_up: "distinct (map up_user_plant_id (user_plants db))"
    and pk_ap: "distinct (map ap_plant_id (all_plants db))"
    and fk: "\<forall>up \<in> set (user_plants db). \<exists>ap \<in> set (all_plants db). ap_plant_id ap = up_plant_id up"
    and ret: "getUpcomingReminders z db userId w now = Inr us"
  shows "\<exists>future. toISODate (setDate_plus z (Some now) w) = Inr future
       \<and> sorted (map u_nextReminder us)
       \<and> distinct (map u_id us)
       \<and> u_id ` set us =
           r_reminder_id ` {r \<in> set (plant_reminders db). due_between db userId (utcDate now) future r}
       \<and> (\<forall>u \<in> set us.
             \<exists>r \<in> set (plant_reminders db). due_between db userId (utcDate now) future r
                \<and> u_id u = r_reminder_id r \<and> u_nextReminder u = r_next_reminder r
                \<and> u_plantId u = r_user_plant_id r)"
proof -
  from ret obtain future where fut: "toISODate (setDate_plus z (Some now) w) = Inr future"
    by (cases "toISODate (setDate_plus z (Some now) w)")
       (simp_all add: getUpcomingReminders_joined)
  let ?today = "utcDate now"
  let ?j = "joined db userId ?today future"
  let ?L = "concat (map ?j (plant_reminders db))"
  let ?q = "due_between db userId ?today future"
  have res: "us = sort_key u_nextReminder ?L"
    using ret fut by (simp add: getUpcomingReminders_joined)
  have one: "(?q r \<longrightarrow> (\<exists>u. ?j r = [u])) \<and> (\<not> ?q r \<longrightarrow> ?j r = [])" for r
    using joined_one [OF pk_up pk_ap fk, of userId ?today future r] by blast
  have ids: "map u_id ?L = map r_reminder_id (filter ?q (plant_reminders db))"
    by (rule concat_joined_ids) (use one joined_fields in blast)+
  have sorted: "sorted (map u_nextReminder us)"
    unfolding res by (rule sorted_sort_key)
  have "distinct (map u_id ?L)"
    unfolding ids by (rule distinct_map_filter [OF pk_r])
  then have dist: "distinct (map u_id us)"
    unfolding res by (simp only: distinct_map_sort_key)
  have "set (map u_id ?L) = set (map r_reminder_id (filter ?q (plant_reminders db)))"
    by (simp only: ids)
  then have set_ids: "u_id ` set us = r_reminder_id ` {r \<in> set (plant_reminders db). ?q r}"
    unfolding res by (simp add: set_sort del: set_concat)
  have each: "\<exists>r \<in> set (plant_reminders db). ?q r
                \<and> u_id u = r_reminder_id r \<and> u_nextReminder u = r_next_reminder r
                \<and> u_plantId u = r_user_plant_id r"
    if "u \<in> set us" for u
  proof -
    from that obtain r where r: "r \<in> set (plant_reminders db)" "u \<in> set (?j r)"
      unfolding res by (auto simp: set_sort)
    with one [of r] have "?q r" by auto
    with r joined_fields [OF r(2)] show ?thesis by blast
  qed
  show ?thesis
    using fut sorted dist set_ids each by blast
qed

text \<open>
  On a server whose offset from UTC never changes the end date is today + \<open>daysAhead\<close>.
\<close>

lemma getUpcomingReminders_fixed_zone:
  "toISODate (setDate_plus (fixed_zone off) (Some now) w) = Inr future \<Longrightarrow>
   future = utcDate now + w"
  by (rule toISODate_setDate_plus_fixed_zone)

text \<open>
  C3. A reminder due on today + \<open>daysAhead\<close> is not returned by the
  code on a server in Europe/Tallinn on 2025-03-29 at 00:30 UTC with a window of 3
  days: the user's one active reminder is due on 2025-04-01 (day 20179), today + 3, and the
  call returns the empty list. The end date the code computes is 2025-03-31:
  \<^verbatim>\<open>setDate\<close> moves the local time, 02:30 on the 29th, to 02:30 on the 1st of April,
  which after the clocks went forward is 23:30 UTC on the 31st of March, and
  \<^verbatim>\<open>toISOString\<close> reads the UTC date. With the clocks left alone (two hours ahead of UTC
  throughout) the same call returns the reminder.
\<close>

theorem getUpcomingReminders_dst_day_short:
  "getUpcomingReminders tallinn garden_april 1 3 march_29 = Inr []
   \<and> toISODate (setDate_plus tallinn (Some march_29) 3) = Inr 20178
   \<and> plant_reminders garden_april = [april_rem]
   \<and> r_is_active april_rem
   \<and> owned_plant garden_april (r_user_plant_id april_rem) 1 = [roma_plant]
   \<and> utcDate march_29 = 20176
   \<and> r_next_reminder april_rem = utcDate march_29 + 3
   \<and> getUpcomingReminders (fixed_zone 7200000) garden_april 1 3 march_29
       = Inr [upcoming_of april_rem roma_plant roma]"
  by (simp add: getUpcomingReminders_def owned_plant_def setDate_plus_def TimeClip_def
        maxTime_def LocalTime_def UTC_def utcDate_def msPerDay_def tallinn_def fixed_zone_def
        march_29_def garden_april_def april_rem_def garden_def roma_plant_def roma_def
        watering_rem_def)

section \<open>Plant registry: ownership and soft delete\<close>

lemma set_getUserPlants:
  "p \<in> set (getUserPlants db userId) \<longleftrightarrow>
     (\<exists>up \<in> set (user_plants db). \<exists>ap \<in> set (all_plants db).
        up_plant_id up = ap_plant_id ap \<and> up_user_id up = userId \<and> \<not> up_is_deleted up
        \<and> p = plant_of up ap)"
  by (auto simp: getUserPlants_def split: if_splits)

lemma getPlantById_None_iff:
  "getPlantById db plantId userId = None \<longleftrightarrow>
     (\<forall>up \<in> set (user_plants db). \<forall>ap \<in> set (all_plants db).
        up_plant_id up = ap_plant_id ap \<longrightarrow>
        \<not> (up_user_plant_id up = plantId \<and> up_user_id up = userId \<and> \<not> up_is_deleted up))"
  unfolding getPlantById_def first_row_None by (auto split: if_splits)

lemma user_plants_deletePlant:
  "user_plants (fst (deletePlant db plantId userId)) =
     map (\<lambda>up. if up_user_plant_id up = plantId \<and> up_user_id up = userId
                then up\<lparr>up_is_deleted := True\<rparr> else up) (user_plants db)"
  by (simp add: deletePlant_def)

lemma deletePlant_rows:
  assumes "up' \<in> set (user_plants (fst (deletePlant db plantId userId)))"
    and k: "up_user_plant_id up' = plantId" "up_user_id up' = userId"
  shows "up_is_deleted up'"
proof -
  from assms(1) obtain x where x: "up' = (if up_user_plant_id x = plantId \<and> up_user_id x = userId
                                then x\<lparr>up_is_deleted := True\<rparr> else x)"
    unfolding user_plants_deletePlant set_map by (rule imageE)
  show ?thesis
  proof (cases "up_user_plant_id x = plantId \<and> up_user_id x = userId")
    case True
    with x show ?thesis by simp
  next
    case False
    with x k show ?thesis by simp
  qed
qed

lemma deletePlant_all_plants [simp]:
  "all_plants (fst (deletePlant db plantId userId)) = all_plants db"
  by (simp add: deletePlant_def)

text \<open>
  C4. A plant owned by user \<open>A\<close> (\<^verbatim>\<open>user_plant_id\<close> is the primary key), and another user
  \<open>B\<close>: \<^verbatim>\<open>getPlantById\<close> as \<open>B\<close> returns null, \<^verbatim>\<open>updatePlant\<close> as \<open>B\<close> returns null
  (or propagates an infrastructure error) and \<^verbatim>\<open>deletePlant\<close> as \<open>B\<close> returns false; the
  store is left as it was, and each outcome is the one the same call has when the plant does
  not exist at all.
\<close>

theorem ownership_isolation:
  assumes pk: "distinct (map up_user_plant_id (user_plants db))"
    and a: "up \<in> set (user_plants db)" "up_user_plant_id up = plantId" "up_user_id up = A"
    and ne: "A \<noteq> B"
  shows "getPlantById db plantId B = None
       \<and> updatePlant no_fault db plantId pd B = (db, Inr None)
       \<and> fst (updatePlant fault db plantId pd B) = db
       \<and> (snd (updatePlant fault db plantId pd B) = Inr None
            \<or> snd (updatePlant fault db plantId pd B) = Inl DbError)
       \<and> deletePlant db plantId B = (db, False)
       \<and> getPlantById db plantId B = getPlantById (without_plant db plantId) plantId B
       \<and> snd (updatePlant fault db plantId pd B)
           = snd (updatePlant fault (without_plant db plantId) plantId pd B)
       \<and> snd (deletePlant db plantId B) = snd (deletePlant (without_plant db plantId) plantId B)"
proof -
  have other: "up_user_id y \<noteq> B"
    if "y \<in> set (user_plants db)" "up_user_plant_id y = plantId" for y
  proof -
    have "y = up"
      using distinct_key_eq [OF pk that(1) a(1)] that(2) a(2) by simp
    with a(3) ne show ?thesis by simp
  qed
  have f1: "filter (\<lambda>up. up_user_plant_id up = plantId \<and> up_user_id up = B \<and> \<not> up_is_deleted up)
              (user_plants db) = []"
    using other by (auto simp: filter_empty_conv)
  have f2: "filter (\<lambda>up. up_user_plant_id up = plantId \<and> up_user_id up = B) (user_plants db) = []"
    using other by (auto simp: filter_empty_conv)
  have m: "map (\<lambda>up. if up_user_plant_id up = plantId \<and> up_user_id up = B
                     then up\<lparr>up_is_deleted := True\<rparr> else up) (user_plants db) = user_plants db"
    by (rule map_idI) (use other in auto)
  have g: "getPlantById db plantId B = None"
    unfolding getPlantById_None_iff using other by auto
  have g': "getPlantById (without_plant db plantId) plantId B = None"
    unfolding getPlantById_None_iff by (auto simp: without_plant_def)
  have u: "updatePlant f db plantId pd B =
             (db, if f GetConnection \<or> f BeginTransaction \<or> f VerifyOwner
                  then Inl DbError else Inr None)" for f
    using f1 by (simp add: updatePlant_def)
  have u': "updatePlant fault (without_plant db plantId) plantId pd B =
             (without_plant db plantId,
              if fault GetConnection \<or> fault BeginTransaction \<or> fault VerifyOwner
              then Inl DbError else Inr None)"
    by (simp add: updatePlant_def without_plant_def)
  have d: "deletePlant db plantId B = (db, False)"
    using f2 m by (simp add: deletePlant_def)
  have d': "snd (deletePlant (without_plant db plantId) plantId B) = False"
    by (simp add: deletePlant_def without_plant_def)
  have n: "updatePlant no_fault db plantId pd B = (db, Inr None)"
    using u [of no_fault] by (simp add: no_fault_def)
  have s1: "snd (updatePlant fault db plantId pd B) = Inr None
            \<or> snd (updatePlant fault db plantId pd B) = Inl DbError"
    using u [of fault] by simp
  have s2: "snd (updatePlant fault db plantId pd B)
         = snd (updatePlant fault (without_plant db plantId) plantId pd B)"
    by (simp only: u u' snd_conv)
  have s3: "fst (updatePlant fault db plantId pd B) = db"
    by (simp only: u fst_conv)
  have s4: "getPlantById db plantId B = getPlantById (without_plant db plantId) plantId B"
    by (simp only: g g')
  have s5: "snd (deletePlant db plantId B) = snd (deletePlant (without_plant db plantId) plantId B)"
    by (simp only: d d' snd_conv)
  show ?thesis
    by (intro conjI) (fact g n s3 s1 d s4 s2 s5)+
qed

theorem ownership_isolation_witness:
  "distinct (map up_user_plant_id (user_plants garden))
   \<and> roma_plant \<in> set (user_plants garden) \<and> up_user_plant_id roma_plant = 1
   \<and> up_user_id roma_plant = 1 \<and> (1::nat) \<noteq> 2
   \<and> getPlantById garden 1 2 = None
   \<and> updatePlant no_fault garden 1 cherry 2 = (garden, Inr None)
   \<and> deletePlant garden 1 2 = (garden, False)
   \<and> getPlantById garden 1 1 \<noteq> None"
proof -
  have h: "distinct (map up_user_plant_id (user_plants garden))"
    "roma_plant \<in> set (user_plants garden)" "up_user_plant_id roma_plant = 1"
    "up_user_id roma_plant = 1" "(1::nat) \<noteq> 2"
    by (simp_all add: garden_def roma_plant_def)
  have own: "getPlantById garden 1 1 \<noteq> None"
    by (simp add: getPlantById_def first_row_def garden_def roma_plant_def roma_def)
  from ownership_isolation [OF h, of cherry no_fault] h own show ?thesis by blast
qed

text \<open>
  C5. For a plant the user owns, \<^verbatim>\<open>deletePlant\<close> succeeds; afterwards
  \<^verbatim>\<open>getUserPlants\<close> does not list the plant and \<^verbatim>\<open>getPlantById\<close> returns null, while
  the row is still in \<^verbatim>\<open>user_plants\<close>, with \<^verbatim>\<open>is_deleted\<close> set and nothing else
  changed, and no row was removed.
\<close>

theorem soft_delete_invisible:
  assumes a: "up \<in> set (user_plants db)" "up_user_plant_id up = plantId" "up_user_id up = userId"
  shows "\<exists>db'. deletePlant db plantId userId = (db', True)
           \<and> plantId \<notin> p_id ` set (getUserPlants db' userId)
           \<and> getPlantById db' plantId userId = None
           \<and> up\<lparr>up_is_deleted := True\<rparr> \<in> set (user_plants db')
           \<and> map up_user_plant_id (user_plants db') = map up_user_plant_id (user_plants db)"
proof -
  have "filter (\<lambda>up. up_user_plant_id up = plantId \<and> up_user_id up = userId) (user_plants db) \<noteq> []"
    using a by (auto simp: filter_empty_conv)
  then have 1: "snd (deletePlant db plantId userId) = True"
    by (simp add: deletePlant_def)
  have 2: "plantId \<notin> p_id ` set (getUserPlants (fst (deletePlant db plantId userId)) userId)"
  proof
    assume "plantId \<in> p_id ` set (getUserPlants (fst (deletePlant db plantId userId)) userId)"
    then obtain up' where "up' \<in> set (user_plants (fst (deletePlant db plantId userId)))"
      "up_user_plant_id up' = plantId" "up_user_id up' = userId" "\<not> up_is_deleted up'"
      by (auto simp: set_getUserPlants plant_of_def)
    then show False using deletePlant_rows by blast
  qed
  have 3: "getPlantById (fst (deletePlant db plantId userId)) plantId userId = None"
    unfolding getPlantById_None_iff
  proof (intro ballI impI)
    fix up' ap
    assume "up' \<in> set (user_plants (fst (deletePlant db plantId userId)))"
    then show "\<not> (up_user_plant_id up' = plantId \<and> up_user_id up' = userId \<and> \<not> up_is_deleted up')"
      using deletePlant_rows by blast
  qed
  have 4: "up\<lparr>up_is_deleted := True\<rparr> \<in> set (user_plants (fst (deletePlant db plantId userId)))"
    using a by (auto simp: deletePlant_def image_iff intro!: bexI [of _ up])
  have 5: "map up_user_plant_id (user_plants (fst (deletePlant db plantId userId)))
             = map up_user_plant_id (user_plants db)"
    by (auto simp: deletePlant_def)
  obtain db' b where e: "deletePlant db plantId userId = (db', b)"
    by (cases "deletePlant db plantId userId")
  with 1 have b: "b = True" by simp
  show ?thesis
    unfolding e b using 2 3 4 5 unfolding e fst_conv by (intro exI [of _ db'] conjI refl)
qed

theorem soft_delete_invisible_witness:
  "roma_plant \<in> set (user_plants garden) \<and> up_user_plant_id roma_plant = 1
   \<and> up_user_id roma_plant = 1
   \<and> 1 \<in> p_id ` set (getUserPlants garden 1)
   \<and> (\<exists>db'. deletePlant garden 1 1 = (db', True)
           \<and> 1 \<notin> p_id ` set (getUserPlants db' 1)
           \<and> getPlantById db' 1 1 = None
           \<and> roma_plant\<lparr>up_is_deleted := True\<rparr> \<in> set (user_plants db')
           \<and> map up_user_plant_id (user_plants db') = map up_user_plant_id (user_plants garden))"
proof -
  have h: "roma_plant \<in> set (user_plants garden)" "up_user_plant_id roma_plant = 1"
    "up_user_id roma_plant = 1"
    by (simp_all add: garden_def roma_plant_def)
  have listed: "1 \<in> p_id ` set (getUserPlants garden 1)"
    by (simp add: getUserPlants_def garden_def roma_plant_def roma_def plant_of_def)
  from soft_delete_invisible [OF h] h listed show ?thesis by blast
qed

section \<open>Catalog and registry writes\<close>

lemma findOrCreatePlantType_found:
  assumes "matching_types db c s = e # es"
  shows "findOrCreatePlantType fault db c s =
           (if fault SelectPlantType then Inl DbError else Inr (db, ap_plant_id e))"
  using assms by (simp add: findOrCreatePlantType_def matching_types_def sql_text_eq_def)

lemma findOrCreatePlantType_new:
  assumes "matching_types db c s = []"
  shows "findOrCreatePlantType fault db c s =
           (if fault SelectPlantType \<or> fault InsertPlantType then Inl DbError
            else Inr (db\<lparr>all_plants := all_plants db @
                         [\<lparr>ap_plant_id = next_plant_id db, ap_plant_cultivar = c,
                           ap_plant_species = s, ap_is_deleted = False\<rparr>],
                       next_plant_id := Suc (next_plant_id db)\<rparr>, next_plant_id db))"
  using assms
  by (simp add: findOrCreatePlantType_def matching_types_def sql_text_eq_def is_deleted_default_def)

lemma findOrCreatePlantType_Inr:
  assumes "findOrCreatePlantType fault db c s = Inr (db1, tid)"
  shows "user_plants db1 = user_plants db"
    and "plant_reminders db1 = plant_reminders db"
    and "plant_health db1 = plant_health db"
    and "all_plants db1 = all_plants db \<or>
         (matching_types db c s = [] \<and>
          all_plants db1 = all_plants db @
            [\<lparr>ap_plant_id = tid, ap_plant_cultivar = c, ap_plant_species = s, ap_is_deleted = False\<rparr>])"
    and "\<exists>ap \<in> set (all_plants db1). ap_plant_id ap = tid \<and> ap_plant_cultivar ap = c
            \<and> ap_plant_species ap = s \<and> \<not> ap_is_deleted ap"
    and "\<exists>es. matching_types db1 c s = 
           \<lparr>ap_plant_id = tid, ap_plant_cultivar = c, ap_plant_species = s, ap_is_deleted = False\<rparr> # es"
proof -
  show "user_plants db1 = user_plants db" "plant_reminders db1 = plant_reminders db"
    "plant_health db1 = plant_health db"
    "all_plants db1 = all_plants db \<or>
         (matching_types db c s = [] \<and>
          all_plants db1 = all_plants db @
            [\<lparr>ap_plant_id = tid, ap_plant_cultivar = c, ap_plant_species = s, ap_is_deleted = False\<rparr>])"
    using assms
    by (cases "matching_types db c s";
        auto simp: findOrCreatePlantType_found findOrCreatePlantType_new split: if_splits)+
  show "\<exists>es. matching_types db1 c s = 
           \<lparr>ap_plant_id = tid, ap_plant_cultivar = c, ap_plant_species = s, ap_is_deleted = False\<rparr> # es"
  proof (cases "matching_types db c s")
    case Nil
    with assms show ?thesis
      by (auto simp: findOrCreatePlantType_new matching_types_def split: if_splits)
  next
    case (Cons e es)
    then have "e \<in> set (matching_types db c s)" by simp
    then have "ap_plant_cultivar e = c \<and> ap_plant_species e = s \<and> \<not> ap_is_deleted e"
      by (simp add: matching_types_def)
    then have "e = \<lparr>ap_plant_id = ap_plant_id e, ap_plant_cultivar = c, ap_plant_species = s, ap_is_deleted = False\<rparr>"
      by (cases e) simp
    with Cons assms show ?thesis
      by (auto simp: findOrCreatePlantType_found split: if_splits)
  qed
  then obtain es where "matching_types db1 c s = 
           \<lparr>ap_plant_id = tid, ap_plant_cultivar = c, ap_plant_species = s, ap_is_deleted = False\<rparr> # es"
    by blast
  then have "\<lparr>ap_plant_id = tid, ap_plant_cultivar = c, ap_plant_species = s, ap_is_deleted = False\<rparr>
      \<in> set (matching_types db1 c s)" by simp
  then have "\<lparr>ap_plant_id = tid, ap_plant_cultivar = c, ap_plant_species = s, ap_is_deleted = False\<rparr>
      \<in> set (all_plants db1)" by (simp add: matching_types_def)
  then show "\<exists>ap \<in> set (all_plants db1). ap_plant_id ap = tid \<and> ap_plant_cultivar ap = c
            \<and> ap_plant_species ap = s \<and> \<not> ap_is_deleted ap"
    by (rule bexI [rotated]) simp
qed

lemma addPlant_early:
  "fault GetConnection \<or> fault BeginTransaction \<Longrightarrow>
   addPlant fault db pd userId = (db, Inl DbError)"
  by (auto simp: addPlant_def)

lemma addPlant_type_failed:
  "\<not> fault GetConnection \<Longrightarrow> \<not> fault BeginTransaction \<Longrightarrow>
   findOrCreatePlantType fault db (cultivar pd) (species pd) = Inl e \<Longrightarrow>
   addPlant fault db pd userId = (db, Inl e)"
  by (simp add: addPlant_def)

lemma addPlant_typed:
  "\<not> fault GetConnection \<Longrightarrow> \<not> fault BeginTransaction \<Longrightarrow>
   findOrCreatePlantType fault db (cultivar pd) (species pd) = Inr (db1, tid) \<Longrightarrow>
   addPlant fault db pd userId =
     (if fault InsertUserPlant then (rollback db db1, Inl DbError)
      else if fault Commit
        then (rollback db (db1\<lparr>user_plants := user_plants db1 @ [new_user_plant db1 tid pd userId],
                          next_user_plant_id := Suc (next_user_plant_id db1)\<rparr>), Inl DbError)
      else (db1\<lparr>user_plants := user_plants db1 @ [new_user_plant db1 tid pd userId],
                 next_user_plant_id := Suc (next_user_plant_id db1)\<rparr>,
            if fault FetchPlant then Inl DbError
            else Inr (fetchPlant
                        (db1\<lparr>user_plants := user_plants db1 @ [new_user_plant db1 tid pd userId],
                              next_user_plant_id := Suc (next_user_plant_id db1)\<rparr>)
                        (next_user_plant_id db1))))"
  by (simp add: addPlant_def Let_def new_user_plant_def is_deleted_default_def)

text \<open>
  C9. \<^verbatim>\<open>addPlant\<close>, whichever of its steps fail: afterwards either the catalog and the
  registry hold the rows they held before and the call has thrown (neither a new catalog
  entry nor a new plant is visible), or the registry holds the new plant and the catalog holds
  the active entry it references, the one found or the one just created (both are visible).
  A catalog entry without its plant, or a plant without its entry, is never left. The
  reminder and health tables are untouched.
\<close>

theorem addPlant_atomic:
  assumes run: "addPlant fault db pd userId = (db', res)"
  shows "plant_reminders db' = plant_reminders db \<and> plant_health db' = plant_health db \<and>
         ((all_plants db' = all_plants db \<and> user_plants db' = user_plants db \<and> (\<exists>e. res = Inl e))
          \<or> (\<exists>x ap. user_plants db' = user_plants db @ [x] \<and> up_user_id x = userId
                 \<and> \<not> up_is_deleted x
                 \<and> ap \<in> set (all_plants db') \<and> ap_plant_id ap = up_plant_id x
                 \<and> ap_plant_cultivar ap = cultivar pd \<and> ap_plant_species ap = species pd
                 \<and> \<not> ap_is_deleted ap
                 \<and> (all_plants db' = all_plants db \<or> all_plants db' = all_plants db @ [ap])
                 \<and> \<not> fault InsertUserPlant \<and> \<not> fault Commit))"
proof (cases "fault GetConnection \<or> fault BeginTransaction")
  case True
  from run show ?thesis unfolding addPlant_early [OF True] by auto
next
  case nf: False
  then have nf1: "\<not> fault GetConnection" and nf2: "\<not> fault BeginTransaction" by simp_all
  show ?thesis
  proof (cases "findOrCreatePlantType fault db (cultivar pd) (species pd)")
    case (Inl e)
    from run show ?thesis unfolding addPlant_type_failed [OF nf1 nf2 Inl] by auto
  next
    case (Inr r)
    obtain db1 tid where r: "r = (db1, tid)" by (cases r)
    note foc = findOrCreatePlantType_Inr [OF Inr [unfolded r]]
    note eq = addPlant_typed [OF nf1 nf2 Inr [unfolded r], of userId]
    show ?thesis
    proof (cases "fault InsertUserPlant \<or> fault Commit")
      case True
      with run eq foc(1,2,3) show ?thesis by (auto split: if_splits)
    next
      case False
      let ?x = "new_user_plant db1 tid pd userId"
      let ?ap = "\<lparr>ap_plant_id = tid, ap_plant_cultivar = cultivar pd,
                   ap_plant_species = species pd, ap_is_deleted = False\<rparr>"
      from run eq False
      have db': "db' = db1\<lparr>user_plants := user_plants db1 @ [?x],
                           next_user_plant_id := Suc (next_user_plant_id db1)\<rparr>"
        by simp
      from foc(6) have "?ap \<in> set (matching_types db1 (cultivar pd) (species pd))" by auto
      then have ap: "?ap \<in> set (all_plants db1)" by (simp add: matching_types_def)
      have all: "all_plants db1 = all_plants db \<or> all_plants db1 = all_plants db @ [?ap]"
        using foc(4) by blast
      have "user_plants db' = user_plants db @ [?x]" "up_user_id ?x = userId" "\<not> up_is_deleted ?x"
        "?ap \<in> set (all_plants db')" "ap_plant_id ?ap = up_plant_id ?x"
        "ap_plant_cultivar ?ap = cultivar pd" "ap_plant_species ?ap = species pd" "\<not> ap_is_deleted ?ap"
        "all_plants db' = all_plants db \<or> all_plants db' = all_plants db @ [?ap]"
        "plant_reminders db' = plant_reminders db" "plant_health db' = plant_health db"
        using db' foc(1,2,3) ap all by (simp_all add: new_user_plant_def)
      with False show ?thesis by blast
    qed
  qed
qed

theorem addPlant_atomic_witness:
  "snd (addPlant insert_fails garden cherry 1) = Inl DbError
   \<and> matching_types garden ''Cherry'' ''Tomato'' = []
   \<and> all_plants (fst (addPlant insert_fails garden cherry 1)) = all_plants garden
   \<and> user_plants (fst (addPlant insert_fails garden cherry 1)) = user_plants garden
   \<and> (\<exists>x ap. user_plants (fst (addPlant no_fault garden cherry 1)) = user_plants garden @ [x]
          \<and> all_plants (fst (addPlant no_fault garden cherry 1)) = all_plants garden @ [ap]
          \<and> ap_plant_id ap = up_plant_id x \<and> ap_plant_cultivar ap = ''Cherry'')"
proof -
  have e1: "addPlant insert_fails garden cherry 1 =
              (fst (addPlant insert_fails garden cherry 1), snd (addPlant insert_fails garden cherry 1))"
    and e2: "addPlant no_fault garden cherry 1 =
              (fst (addPlant no_fault garden cherry 1), snd (addPlant no_fault garden cherry 1))"
    by simp_all
  have v1: "snd (addPlant insert_fails garden cherry 1) = Inl DbError"
    "matching_types garden ''Cherry'' ''Tomato'' = []"
    by (simp_all add: addPlant_def findOrCreatePlantType_def insert_fails_def garden_def
          cherry_def roma_def sql_text_eq_def matching_types_def)
  have v2: "user_plants (fst (addPlant no_fault garden cherry 1)) \<noteq> user_plants garden"
    "all_plants (fst (addPlant no_fault garden cherry 1)) \<noteq> all_plants garden"
    by (simp_all add: addPlant_def findOrCreatePlantType_def no_fault_def garden_def
          cherry_def roma_def sql_text_eq_def Let_def)
  from addPlant_atomic [OF e1] v1
  have a: "all_plants (fst (addPlant insert_fails garden cherry 1)) = all_plants garden"
    "user_plants (fst (addPlant insert_fails garden cherry 1)) = user_plants garden"
    by (simp_all add: insert_fails_def)
  from addPlant_atomic [OF e2] v2
  have b: "\<exists>x ap. user_plants (fst (addPlant no_fault garden cherry 1)) = user_plants garden @ [x]
          \<and> all_plants (fst (addPlant no_fault garden cherry 1)) = all_plants garden @ [ap]
          \<and> ap_plant_id ap = up_plant_id x \<and> ap_plant_cultivar ap = ''Cherry''"
    by (auto simp: cherry_def)
  from v1 a b show ?thesis by blast
qed

lemma fetchPlant_Some:
  assumes "up \<in> set (user_plants db)" and "ap \<in> set (all_plants db)"
    and "up_plant_id up = ap_plant_id ap" and "up_user_plant_id up = plantId"
  shows "\<exists>p. fetchPlant db plantId = Some p"
proof -
  have "fetchPlant db plantId \<noteq> None"
    unfolding fetchPlant_def first_row_None using assms by (auto split: if_splits)
  then show ?thesis by blast
qed

lemma findOrCreatePlantType_total:
  "\<exists>db1 tid. findOrCreatePlantType no_fault db c s = Inr (db1, tid)"
  by (cases "matching_types db c s")
     (simp_all add: findOrCreatePlantType_found findOrCreatePlantType_new no_fault_def)

lemma matching_types_user_plants [simp]:
  "matching_types (db\<lparr>user_plants := ups, next_user_plant_id := n\<rparr>) c s = matching_types db c s"
  by (simp add: matching_types_def)

lemma addPlant_no_fault:
  assumes "findOrCreatePlantType no_fault db (cultivar pd) (species pd) = Inr (db1, tid)"
  shows "\<exists>p. addPlant no_fault db pd userId =
           (db1\<lparr>user_plants := user_plants db1 @ [new_user_plant db1 tid pd userId],
                next_user_plant_id := Suc (next_user_plant_id db1)\<rparr>, Inr (Some p))"
proof -
  let ?db2 = "db1\<lparr>user_plants := user_plants db1 @ [new_user_plant db1 tid pd userId],
                next_user_plant_id := Suc (next_user_plant_id db1)\<rparr>"
  from findOrCreatePlantType_Inr(5) [OF assms]
  obtain ap where ap: "ap \<in> set (all_plants db1)" "ap_plant_id ap = tid" by blast
  have "\<exists>p. fetchPlant ?db2 (next_user_plant_id db1) = Some p"
    by (rule fetchPlant_Some [of "new_user_plant db1 tid pd userId" _ ap])
       (use ap in \<open>simp_all add: new_user_plant_def\<close>)
  then obtain p where "fetchPlant ?db2 (next_user_plant_id db1) = Some p" ..
  then show ?thesis
    using addPlant_typed [of no_fault db pd db1 tid userId] assms
    by (simp add: no_fault_def)
qed

text \<open>
  C8. \<^verbatim>\<open>findOrCreatePlantType\<close> returns the id of the first active catalog row whose
  cultivar and species are exactly the given strings and leaves the store alone; when there is
  none it appends one such row under the id of the table's counter and returns that id. So two additions in
  sequence with the same cultivar and species, by any two users, both succeed, their
  \<^verbatim>\<open>user_plants\<close> rows reference the same catalog id, and the second addition leaves
  the catalog as the first left it: one matching entry if there was none before, as many as
  before otherwise.
\<close>

theorem findOrCreatePlantType_reuse:
  "(\<forall>e es. matching_types db c s = e # es \<longrightarrow>
        findOrCreatePlantType no_fault db c s = Inr (db, ap_plant_id e))
   \<and> (matching_types db c s = [] \<longrightarrow>
        (\<exists>db1. findOrCreatePlantType no_fault db c s = Inr (db1, next_plant_id db)
           \<and> all_plants db1 = all_plants db @
                [\<lparr>ap_plant_id = next_plant_id db, ap_plant_cultivar = c,
                  ap_plant_species = s, ap_is_deleted = False\<rparr>]
           \<and> user_plants db1 = user_plants db))
   \<and> (\<exists>db1 p1 x1 db2 p2 x2.
         addPlant no_fault db
           \<lparr>cultivar = c, species = s, plantingTime = t1, estCropping = e1, photoUrl = ph1\<rparr> u1
           = (db1, Inr (Some p1))
       \<and> user_plants db1 = user_plants db @ [x1] \<and> up_user_id x1 = u1
       \<and> addPlant no_fault db1
           \<lparr>cultivar = c, species = s, plantingTime = t2, estCropping = e2, photoUrl = ph2\<rparr> u2
           = (db2, Inr (Some p2))
       \<and> user_plants db2 = user_plants db1 @ [x2] \<and> up_user_id x2 = u2
       \<and> up_plant_id x2 = up_plant_id x1
       \<and> all_plants db2 = all_plants db1
       \<and> length (matching_types db2 c s) = max 1 (length (matching_types db c s)))"
proof (intro conjI allI impI)
  fix e es assume "matching_types db c s = e # es"
  then show "findOrCreatePlantType no_fault db c s = Inr (db, ap_plant_id e)"
    by (simp add: findOrCreatePlantType_found no_fault_def)
next
  assume "matching_types db c s = []"
  then show "\<exists>db1. findOrCreatePlantType no_fault db c s = Inr (db1, next_plant_id db)
           \<and> all_plants db1 = all_plants db @
                [\<lparr>ap_plant_id = next_plant_id db, ap_plant_cultivar = c,
                  ap_plant_species = s, ap_is_deleted = False\<rparr>]
           \<and> user_plants db1 = user_plants db"
    by (simp add: findOrCreatePlantType_new no_fault_def)
next
  let ?pd1 = "\<lparr>cultivar = c, species = s, plantingTime = t1, estCropping = e1, photoUrl = ph1\<rparr>"
  let ?pd2 = "\<lparr>cultivar = c, species = s, plantingTime = t2, estCropping = e2, photoUrl = ph2\<rparr>"
  obtain dba tid where foc1: "findOrCreatePlantType no_fault db c s = Inr (dba, tid)"
    using findOrCreatePlantType_total by blast
  note f1 = findOrCreatePlantType_Inr [OF foc1]
  let ?x1 = "new_user_plant dba tid ?pd1 u1"
  let ?db1 = "dba\<lparr>user_plants := user_plants dba @ [?x1],
                   next_user_plant_id := Suc (next_user_plant_id dba)\<rparr>"
  from addPlant_no_fault [of db ?pd1 dba tid u1] foc1
  obtain p1 where a1: "addPlant no_fault db ?pd1 u1 = (?db1, Inr (Some p1))" by auto
  from f1(6) obtain es where m: "matching_types dba c s =
      \<lparr>ap_plant_id = tid, ap_plant_cultivar = c, ap_plant_species = s, ap_is_deleted = False\<rparr> # es"
    by blast
  then have foc2: "findOrCreatePlantType no_fault ?db1 c s = Inr (?db1, tid)"
    using findOrCreatePlantType_found [of ?db1 c s _ es no_fault] by (simp add: no_fault_def)
  let ?x2 = "new_user_plant ?db1 tid ?pd2 u2"
  let ?db2 = "?db1\<lparr>user_plants := user_plants ?db1 @ [?x2],
                   next_user_plant_id := Suc (next_user_plant_id ?db1)\<rparr>"
  from addPlant_no_fault [of ?db1 ?pd2 ?db1 tid u2] foc2
  obtain p2 where a2: "addPlant no_fault ?db1 ?pd2 u2 = (?db2, Inr (Some p2))" by auto
  have len: "length (matching_types ?db2 c s) = max 1 (length (matching_types db c s))"
  proof (cases "matching_types db c s")
    case Nil
    with f1(4) have "matching_types dba c s =
      [\<lparr>ap_plant_id = tid, ap_plant_cultivar = c, ap_plant_species = s, ap_is_deleted = False\<rparr>]"
      using foc1 by (auto simp: findOrCreatePlantType_new no_fault_def matching_types_def)
    with Nil show ?thesis by simp
  next
    case (Cons e es')
    with foc1 have "dba = db" by (simp add: findOrCreatePlantType_found no_fault_def)
    with Cons show ?thesis by simp
  qed
  have "user_plants ?db1 = user_plants db @ [?x1]" "up_user_id ?x1 = u1"
    "user_plants ?db2 = user_plants ?db1 @ [?x2]" "up_user_id ?x2 = u2"
    "up_plant_id ?x2 = up_plant_id ?x1" "all_plants ?db2 = all_plants ?db1"
    using f1(1) by (simp_all add: new_user_plant_def)
  with a1 a2 len
  show "\<exists>db1 p1 x1 db2 p2 x2.
         addPlant no_fault db ?pd1 u1 = (db1, Inr (Some p1))
       \<and> user_plants db1 = user_plants db @ [x1] \<and> up_user_id x1 = u1
       \<and> addPlant no_fault db1 ?pd2 u2 = (db2, Inr (Some p2))
       \<and> user_plants db2 = user_plants db1 @ [x2] \<and> up_user_id x2 = u2
       \<and> up_plant_id x2 = up_plant_id x1
       \<and> all_plants db2 = all_plants db1
       \<and> length (matching_types db2 c s) = max 1 (length (matching_types db c s))"
    by blast
qed

theorem findOrCreatePlantType_reuse_witness:
  "matching_types garden ''Roma'' ''Tomato'' = [roma]
   \<and> findOrCreatePlantType no_fault garden ''Roma'' ''Tomato'' = Inr (garden, ap_plant_id roma)
   \<and> matching_types garden ''Cherry'' ''Tomato'' = []
   \<and> (\<exists>db1. findOrCreatePlantType no_fault garden ''Cherry'' ''Tomato''
                 = Inr (db1, next_plant_id garden)
          \<and> all_plants db1 = all_plants garden @
               [\<lparr>ap_plant_id = next_plant_id garden, ap_plant_cultivar = ''Cherry'',
                 ap_plant_species = ''Tomato'', ap_is_deleted = False\<rparr>]
          \<and> user_plants db1 = user_plants garden)"
proof -
  have m: "matching_types garden ''Roma'' ''Tomato'' = [roma]"
    "matching_types garden ''Cherry'' ''Tomato'' = []"
    by (simp_all add: matching_types_def garden_def roma_def)
  from findOrCreatePlantType_reuse [of garden "''Roma''" "''Tomato''"]
       findOrCreatePlantType_reuse [of garden "''Cherry''" "''Tomato''"] m
  show ?thesis by blast
qed

lemma updatePlant_Inr:
  assumes ok: "updatePlant fault db plantId pd userId = (db', Inr res)"
    and owned: "filter (\<lambda>up. up_user_plant_id up = plantId \<and> up_user_id up = userId
                            \<and> \<not> up_is_deleted up) (user_plants db) \<noteq> []"
  shows "\<exists>db1 tid. findOrCreatePlantType fault db (cultivar pd) (species pd) = Inr (db1, tid)
           \<and> db' = db1\<lparr>user_plants :=
                          map (\<lambda>up. if up_user_plant_id up = plantId \<and> up_user_id up = userId
                                     then updateRow tid pd up else up)
                              (user_plants db1)\<rparr>
           \<and> res = fetchPlant db' plantId"
proof (cases "findOrCreatePlantType fault db (cultivar pd) (species pd)")
  case (Inl e)
  with ok owned show ?thesis
    by (simp add: updatePlant_def split: if_splits)
next
  case (Inr r)
  obtain db1 tid where r: "r = (db1, tid)" by (cases r)
  from ok owned Inr r show ?thesis
    by (auto simp: updatePlant_def Let_def split: if_splits)
qed

lemma updateRow_fields:
  "up_photo_url (updateRow tid pd up) =
     (if photoUrl pd = None \<or> photoUrl pd = Some [] then up_photo_url up else photoUrl pd)"
  "up_planting_time (updateRow tid pd up) = plantingTime pd"
  "up_est_cropping (updateRow tid pd up) =
     (if estCropping pd = Some [] then None else estCropping pd)"
  "up_plant_id (updateRow tid pd up) = tid"
  "up_user_plant_id (updateRow tid pd up) = up_user_plant_id up"
  "up_user_id (updateRow tid pd up) = up_user_id up"
  "up_is_deleted (updateRow tid pd up) = up_is_deleted up"
  by (auto simp: updateRow_def str_or_null_def Let_def split: option.splits)

text \<open>
  C7. The row of an owned, not soft-deleted plant after an \<^verbatim>\<open>updatePlant\<close> that
  returned: its \<^verbatim>\<open>photo_url\<close> is the old one when the supplied \<^verbatim>\<open>photoUrl\<close> is null
  or empty, and the supplied one otherwise; \<^verbatim>\<open>planting_time\<close> is the supplied date,
  \<^verbatim>\<open>est_cropping\<close> the supplied form string (null when it is null or empty), and
  \<^verbatim>\<open>plant_id\<close> an active catalog entry of the supplied cultivar and species. Owner, id and
  \<^verbatim>\<open>is_deleted\<close> are as before, and the call returned a plant.
\<close>

theorem updatePlant_partial_photo:
  assumes i: "i < length (user_plants db)" and up: "user_plants db ! i = up"
    and own: "up_user_plant_id up = plantId" "up_user_id up = userId" "\<not> up_is_deleted up"
    and ok: "updatePlant fault db plantId pd userId = (db', Inr res)"
  shows "length (user_plants db') = length (user_plants db)
       \<and> up_photo_url (user_plants db' ! i) =
           (if photoUrl pd = None \<or> photoUrl pd = Some [] then up_photo_url up else photoUrl pd)
       \<and> up_planting_time (user_plants db' ! i) = plantingTime pd
       \<and> up_est_cropping (user_plants db' ! i) =
           (if estCropping pd = Some [] then None else estCropping pd)
       \<and> (\<exists>ap. ap \<in> set (all_plants db') \<and> ap_plant_id ap = up_plant_id (user_plants db' ! i)
             \<and> ap_plant_cultivar ap = cultivar pd \<and> ap_plant_species ap = species pd
             \<and> \<not> ap_is_deleted ap)
       \<and> up_user_plant_id (user_plants db' ! i) = plantId
       \<and> up_user_id (user_plants db' ! i) = userId
       \<and> \<not> up_is_deleted (user_plants db' ! i)
       \<and> (\<exists>p. res = Some p)"
proof -
  have mem: "up \<in> set (user_plants db)" using i up by (auto simp: set_conv_nth)
  then have owned: "filter (\<lambda>up. up_user_plant_id up = plantId \<and> up_user_id up = userId
                            \<and> \<not> up_is_deleted up) (user_plants db) \<noteq> []"
    using own by (auto simp: filter_empty_conv)
  from updatePlant_Inr [OF ok owned] obtain db1 tid where
    foc: "findOrCreatePlantType fault db (cultivar pd) (species pd) = Inr (db1, tid)"
    and db': "db' = db1\<lparr>user_plants :=
                          map (\<lambda>up. if up_user_plant_id up = plantId \<and> up_user_id up = userId
                                     then updateRow tid pd up else up)
                              (user_plants db1)\<rparr>"
    and res: "res = fetchPlant db' plantId"
    by blast
  note f = findOrCreatePlantType_Inr [OF foc]
  have row: "user_plants db' ! i = updateRow tid pd up"
    using db' f(1) i up own by simp
  have len: "length (user_plants db') = length (user_plants db)"
    using db' f(1) by simp
  from f(5) obtain ap where ap: "ap \<in> set (all_plants db')" "ap_plant_id ap = tid"
    "ap_plant_cultivar ap = cultivar pd" "ap_plant_species ap = species pd" "\<not> ap_is_deleted ap"
    using db' by auto
  have "user_plants db' ! i \<in> set (user_plants db')"
    using len i by simp
  then have "\<exists>p. fetchPlant db' plantId = Some p"
    by (rule fetchPlant_Some [OF _ ap(1)]) (simp_all add: row updateRow_fields ap own)
  with res have some: "\<exists>p. res = Some p" by simp
  show ?thesis
    using len some ap own by (auto simp: row updateRow_fields)
qed

theorem updatePlant_partial_photo_witness:
  "0 < length (user_plants garden) \<and> user_plants garden ! 0 = roma_plant
   \<and> up_user_plant_id roma_plant = 1 \<and> up_user_id roma_plant = 1 \<and> \<not> up_is_deleted roma_plant
   \<and> photoUrl cherry = None \<and> estCropping cherry = Some ''70''
   \<and> photoUrl cherry_photo = Some ''/uploads/cherry.jpg'' \<and> estCropping cherry_photo = Some ''0''
   \<and> (\<exists>db' res. updatePlant no_fault garden 1 cherry 1 = (db', Inr res)
          \<and> up_photo_url (user_plants db' ! 0) = up_photo_url roma_plant
          \<and> up_planting_time (user_plants db' ! 0) = 20160
          \<and> up_est_cropping (user_plants db' ! 0) = Some ''70'')
   \<and> (\<exists>db' res. updatePlant no_fault garden 1 cherry_photo 1 = (db', Inr res)
          \<and> up_photo_url (user_plants db' ! 0) = Some ''/uploads/cherry.jpg''
          \<and> up_est_cropping (user_plants db' ! 0) = Some ''0'')"
proof -
  have h: "0 < length (user_plants garden)" "user_plants garden ! 0 = roma_plant"
    "up_user_plant_id roma_plant = 1" "up_user_id roma_plant = 1" "\<not> up_is_deleted roma_plant"
    by (simp_all add: garden_def roma_plant_def)
  have v: "photoUrl cherry = None" "estCropping cherry = Some ''70''"
    "photoUrl cherry_photo = Some ''/uploads/cherry.jpg''"
    "estCropping cherry_photo = Some ''0''" "plantingTime cherry = 20160"
    by (simp_all add: cherry_def cherry_photo_def)
  have "\<exists>db' res. updatePlant no_fault garden 1 cherry 1 = (db', Inr res)"
    by (simp add: updatePlant_def findOrCreatePlantType_def no_fault_def garden_def
          roma_plant_def roma_def cherry_def sql_text_eq_def Let_def)
  then obtain dba resa where a: "updatePlant no_fault garden 1 cherry 1 = (dba, Inr resa)"
    by blast
  have "\<exists>db' res. updatePlant no_fault garden 1 cherry_photo 1 = (db', Inr res)"
    by (simp add: updatePlant_def findOrCreatePlantType_def no_fault_def garden_def
          roma_plant_def roma_def cherry_def cherry_photo_def sql_text_eq_def Let_def)
  then obtain dbb resb where b: "updatePlant no_fault garden 1 cherry_photo 1 = (dbb, Inr resb)"
    by blast
  from updatePlant_partial_photo [OF h a] v
  have ra: "up_photo_url (user_plants dba ! 0) = up_photo_url roma_plant"
    "up_planting_time (user_plants dba ! 0) = 20160"
    "up_est_cropping (user_plants dba ! 0) = Some ''70''"
    by simp_all
  from updatePlant_partial_photo [OF h b] v
  have rb: "up_photo_url (user_plants dbb ! 0) = Some ''/uploads/cherry.jpg''"
    "up_est_cropping (user_plants dbb ! 0) = Some ''0''"
    by simp_all
  from h v(1-4) a b ra rb show ?thesis by blast
qed

section \<open>Health log\<close>

text \<open>
  C6, as stated, fails: user 1 owns plant 1, which has no health remark; plant 7 does not
  exist, and user 2 does not own plant 1. The service returns the same value in all three
  cases, and the route the same response.
\<close>

theorem getLatestHealthRemark_counterexample:
  "owned_plant garden 1 1 \<noteq> [] \<and> plant_remarks garden 1 = []
   \<and> owned_plant garden 7 1 = [] \<and> owned_plant garden 1 2 = []
   \<and> getLatestHealthRemark garden 1 1 = getLatestHealthRemark garden 7 1
   \<and> getLatestHealthRemark garden 1 1 = getLatestHealthRemark garden 1 2
   \<and> get_health_latest garden 1 1 = get_health_latest garden 7 1
   \<and> get_health_latest garden 1 1 = get_health_latest garden 1 2"
  by (simp add: owned_plant_def plant_remarks_def getLatestHealthRemark_def get_health_latest_def
        first_row_def garden_def roma_plant_def)

lemma first_row_sort_key:
  assumes "first_row (sort_key k xs) = Some x"
  shows "x \<in> set xs \<and> (\<forall>y \<in> set xs. k x \<le> k y)"
proof -
  from assms obtain ys where ys: "sort_key k xs = x # ys"
    by (cases "sort_key k xs") (simp_all add: first_row_def)
  have "sorted (map k (sort_key k xs))" by (rule sorted_sort_key)
  with ys have "\<forall>y \<in> set (x # ys). k x \<le> k y" by auto
  moreover have "set (x # ys) = set xs" using ys set_sort [of k xs] by simp
  ultimately show ?thesis by auto
qed

text \<open>
  C6, as the code has it. \<^verbatim>\<open>getLatestHealthRemark\<close> has two outcomes: null, exactly when
  the plant is missing, not the user's or soft-deleted, or is the user's and has no remark; and
  otherwise a remark of the plant that no other remark of the plant is newer than. The route
  answers 404 with the one message \<^verbatim>\<open>No health remarks found for this plant\<close> exactly in
  the null case, so the caller cannot tell a missing plant from a plant without remarks.
\<close>

theorem getLatestHealthRemark_two_way:
  "(getLatestHealthRemark db plantId userId = None \<longleftrightarrow>
      owned_plant db plantId userId = [] \<or> plant_remarks db plantId = [])
   \<and> (\<forall>hr. getLatestHealthRemark db plantId userId = Some hr \<longrightarrow>
         (\<exists>h. h \<in> set (plant_remarks db plantId) \<and> hr = remark_of h
            \<and> (\<forall>h' \<in> set (plant_remarks db plantId). h_created_at h' \<le> h_created_at h)))
   \<and> (get_health_latest db plantId userId =
         Response 404 (Message ''No health remarks found for this plant'') \<longleftrightarrow>
      owned_plant db plantId userId = [] \<or> plant_remarks db plantId = [])"
proof (intro conjI allI impI)
  show none: "getLatestHealthRemark db plantId userId = None \<longleftrightarrow>
      owned_plant db plantId userId = [] \<or> plant_remarks db plantId = []"
    by (auto simp: getLatestHealthRemark_def first_row_None plant_remarks_def filter_empty_conv)
  show "get_health_latest db plantId userId =
         Response 404 (Message ''No health remarks found for this plant'') \<longleftrightarrow>
      owned_plant db plantId userId = [] \<or> plant_remarks db plantId = []"
    unfolding none [symmetric] by (simp add: get_health_latest_def split: option.splits)
next
  fix hr assume "getLatestHealthRemark db plantId userId = Some hr"
  then have "first_row (sort_key (\<lambda>h. - hr_createdAt h) (map remark_of (plant_remarks db plantId)))
               = Some hr"
    by (simp add: getLatestHealthRemark_def plant_remarks_def split: if_splits)
  from first_row_sort_key [OF this]
  have hr: "hr \<in> remark_of ` set (plant_remarks db plantId)"
    and le: "\<forall>y \<in> remark_of ` set (plant_remarks db plantId). hr_createdAt y \<le> hr_createdAt hr"
    by auto
  from hr obtain h where h: "h \<in> set (plant_remarks db plantId)" "hr = remark_of h" by blast
  have "\<forall>h' \<in> set (plant_remarks db plantId). h_created_at h' \<le> h_created_at h"
  proof
    fix h' assume "h' \<in> set (plant_remarks db plantId)"
    with le have "hr_createdAt (remark_of h') \<le> hr_createdAt hr" by blast
    then show "h_created_at h' \<le> h_created_at h" by (simp add: h(2) remark_of_def)
  qed
  with h show "\<exists>h. h \<in> set (plant_remarks db plantId) \<and> hr = remark_of h
            \<and> (\<forall>h' \<in> set (plant_remarks db plantId). h_created_at h' \<le> h_created_at h)"
    by blast
qed

theorem getLatestHealthRemark_two_way_witness:
  "getLatestHealthRemark clinic 1 1 = Some (remark_of blight)
   \<and> blight \<in> set (plant_remarks clinic 1)
   \<and> plant_remarks clinic 1 = [aphids, blight]
   \<and> h_created_at aphids \<le> h_created_at blight
   \<and> get_health_latest clinic 1 1 = Response 200 (Remark (remark_of blight))
   \<and> getLatestHealthRemark clinic 1 2 = None
   \<and> owned_plant clinic 1 2 = []"
proof -
  have e: "getLatestHealthRemark clinic 1 1 = Some (remark_of blight)"
    "plant_remarks clinic 1 = [aphids, blight]"
    "get_health_latest clinic 1 1 = Response 200 (Remark (remark_of blight))"
    "owned_plant clinic 1 2 = []"
    by (simp_all add: getLatestHealthRemark_def get_health_latest_def owned_plant_def
          plant_remarks_def first_row_def clinic_def garden_def roma_plant_def aphids_def
          blight_def remark_of_def)
  from getLatestHealthRemark_two_way [of clinic 1 1] e
  have "h_created_at aphids \<le> h_created_at blight"
    by (auto simp: remark_of_def blight_def aphids_def)
  moreover from getLatestHealthRemark_two_way [of clinic 1 2] e
  have "getLatestHealthRemark clinic 1 2 = None" by simp
  ultimately show ?thesis using e by simp
qed

end
